theory Spec2Isabelle
  imports Complex_Main "HOL-Library.Log_Nat"
begin

section \<open>Python values used by \<open>beamerhierarchy/color.py\<close>\<close>

text \<open>
  The exceptions the modelled code can raise. \<open>RuntimeError\<close> is what \<open>BeamerColor.get\<close>
  raises for an unknown ground; the others come from Python itself (indexing a tuple or a
  dict, reading a missing attribute) and from the colour conversions of matplotlib.
\<close>

datatype error = ValueError | IndexError | KeyError | RuntimeError | AttributeError | OverflowError

subsection \<open>Floats\<close>

text \<open>
  A Python float is an IEEE binary64 number. A finite one is modelled by the rational it
  denotes, and \<open>NonFin\<close> stands for an infinity or a NaN: every operation of the source
  (\<open>*\<close>, \<open>/\<close> by a non-zero literal, \<open>+\<close>) maps a non-finite operand to a non-finite
  result, and every consumer of a non-finite channel raises \<open>ValueError\<close>.
  \<open>fl\<close> rounds a rational to the nearest binary64 number, ties to even, with gradual
  underflow below \<open>2^-1022\<close> and overflow from \<open>2^1024\<close> on.
\<close>

datatype float = Fin rat | NonFin

definition pow2 :: "int \<Rightarrow> rat" where
  "pow2 e = (if 0 \<le> e then 2 ^ nat e else 1 / 2 ^ nat (- e))"

definition ilog2 :: "rat \<Rightarrow> int" where
  \<comment> \<open>for \<open>0 < q\<close>: the \<open>e\<close> with \<open>2^e \<le> q < 2^(e+1)\<close>\<close>
  "ilog2 q = (if 1 \<le> q then bitlen \<lfloor>q\<rfloor> - 1 else - bitlen (\<lceil>1 / q\<rceil> - 1))"

definition half_even :: "int \<Rightarrow> rat \<Rightarrow> int" where
  \<comment> \<open>\<open>f\<close> is the floor of \<open>x\<close>\<close>
  "half_even f x =
     (if x - of_int f < 1 / 2 then f
      else if 1 / 2 < x - of_int f then f + 1
      else if even f then f else f + 1)"

definition round_half_even :: "rat \<Rightarrow> int" where
  "round_half_even x = half_even \<lfloor>x\<rfloor> x"

definition ulp :: "rat \<Rightarrow> rat" where
  \<comment> \<open>the spacing of the binary64 numbers around \<open>q\<close>: 53 significant bits\<close>
  "ulp q = pow2 (max (ilog2 \<bar>q\<bar>) (- 1022) - 52)"

definition scaled :: "rat \<Rightarrow> rat \<Rightarrow> rat" where
  "scaled u q = of_int (round_half_even (q / u)) * u"

definition nearest :: "rat \<Rightarrow> rat" where
  "nearest q = (if q = 0 then 0 else scaled (ulp q) q)"

definition finite_or_inf :: "rat \<Rightarrow> float" where
  "finite_or_inf r = (if pow2 1024 \<le> \<bar>r\<bar> then NonFin else Fin r)"

definition fl :: "rat \<Rightarrow> float" where
  "fl q = finite_or_inf (nearest q)"

fun fmul :: "float \<Rightarrow> float \<Rightarrow> float" where
  "fmul (Fin a) (Fin b) = fl (a * b)"
| "fmul _ _ = NonFin"

fun fadd :: "float \<Rightarrow> float \<Rightarrow> float" where
  "fadd (Fin a) (Fin b) = fl (a + b)"
| "fadd _ _ = NonFin"

fun fdiv :: "float \<Rightarrow> rat \<Rightarrow> float" where
  \<comment> \<open>division by a float literal of the source (\<open>100.\<close>), never zero\<close>
  "fdiv (Fin a) d = fl (a / d)"
| "fdiv NonFin d = NonFin"

definition truediv :: "int \<Rightarrow> int \<Rightarrow> float" where
  \<comment> \<open>\<open>a / b\<close> on Python ints, correctly rounded; the source divides by the literal 255 only\<close>
  "truediv a b = fl (of_int a / of_int b)"

definition py_float :: "int \<Rightarrow> error + float" where
  \<comment> \<open>\<open>float(n)\<close> for a Python int\<close>
  "py_float n = (case fl (of_int n) of NonFin \<Rightarrow> Inl OverflowError | Fin x \<Rightarrow> Inr (Fin x))"

fun py_int :: "float \<Rightarrow> error + int" where
  \<comment> \<open>\<open>int(x)\<close> truncates towards zero\<close>
  "py_int (Fin x) = Inr (if 0 \<le> x then \<lfloor>x\<rfloor> else \<lceil>x\<rceil>)"
| "py_int NonFin = Inl ValueError"

fun py_round :: "float \<Rightarrow> error + int" where
  \<comment> \<open>\<open>round(x)\<close> with one argument: to the nearest int, ties to even\<close>
  "py_round (Fin x) = Inr (round_half_even x)"
| "py_round NonFin = Inl ValueError"

subsection \<open>The colour conversions of matplotlib\<close>

text \<open>
  \<open>matplotlib.colors\<close> is not part of the repository. Its functions \<open>to_rgba\<close>, \<open>to_rgb\<close>
  and \<open>to_hex\<close> are modelled here as the library defines them, on the two kinds of colour
  specification this program passes: a string and a sequence of floats.

  A string that starts with \<open>#\<close> is a hexadecimal colour \<open>#rrggbb\<close>, \<open>#rgb\<close>, \<open>#rrggbbaa\<close>
  or \<open>#rgba\<close> (digits of either case; each channel is the byte divided by 255, alpha
  defaults to 1), or else invalid. Every other string (a colour name, a grey level,
  \<open>none\<close>) is resolved by tables of the library: they are the parameter \<open>named\<close>.

  A sequence must have three or four floats, all within \<open>[0, 1]\<close>. The library lets a NaN
  through this test and the caller's \<open>int\<close> or \<open>round\<close> then raises the same
  \<open>ValueError\<close>; the model raises it here.
\<close>

datatype colorspec = Str string | Floats "float list"

type_synonym named_colors = "string \<Rightarrow> error + float \<times> float \<times> float \<times> float"

definition lookup :: "named_colors \<Rightarrow> string \<Rightarrow> error + float list" where
  \<comment> \<open>the library returns a tuple of four channels\<close>
  "lookup named s = (case named s of Inl e \<Rightarrow> Inl e | Inr (r, g, b, a) \<Rightarrow> Inr [r, g, b, a])"

definition hexval :: "char \<Rightarrow> nat option" where
  "hexval c = (let n = (of_char c :: nat) in
     if 48 \<le> n \<and> n \<le> 57 then Some (n - 48)
     else if 97 \<le> n \<and> n \<le> 102 then Some (n - 87)
     else if 65 \<le> n \<and> n \<le> 70 then Some (n - 55)
     else None)"

definition hexbyte :: "char \<Rightarrow> char \<Rightarrow> nat option" where
  "hexbyte h l = (case hexval h of None \<Rightarrow> None
     | Some a \<Rightarrow> (case hexval l of None \<Rightarrow> None | Some b \<Rightarrow> Some (16 * a + b)))"

fun hex_pairs :: "string \<Rightarrow> nat list option" where
  "hex_pairs [] = Some []"
| "hex_pairs [c] = None"
| "hex_pairs (h # l # cs) = (case hexbyte h l of None \<Rightarrow> None
     | Some b \<Rightarrow> (case hex_pairs cs of None \<Rightarrow> None | Some bs \<Rightarrow> Some (b # bs)))"

definition hex_channels :: "string \<Rightarrow> nat list option" where
  \<comment> \<open>the bytes of the digits after \<open>#\<close>; in the short forms each digit is doubled\<close>
  "hex_channels ds =
     (if length ds = 6 \<or> length ds = 8 then hex_pairs ds
      else if length ds = 3 \<or> length ds = 4 then hex_pairs (concat (map (\<lambda>c. [c, c]) ds))
      else None)"

fun out_of_range :: "float \<Rightarrow> bool" where
  "out_of_range (Fin x) = (x < 0 \<or> 1 < x)"
| "out_of_range NonFin = True"

fun to_rgba :: "named_colors \<Rightarrow> colorspec \<Rightarrow> error + float list" where
  "to_rgba named (Str s) =
     (case s of
        [] \<Rightarrow> lookup named s
      | c # ds \<Rightarrow>
          if c = CHR ''#'' then
            (case hex_channels ds of
               None \<Rightarrow> Inl ValueError
             | Some bs \<Rightarrow> Inr (map (\<lambda>k. truediv (int k) 255) bs
                              @ (if length bs = 3 then [Fin 1] else [])))
          else lookup named s)"
| "to_rgba named (Floats c) =
     (if length c \<noteq> 3 \<and> length c \<noteq> 4 then Inl ValueError
      else let c' = (if length c = 3 then c @ [Fin 1] else c)
           in if list_ex out_of_range c' then Inl ValueError else Inr c')"

definition to_rgb :: "named_colors \<Rightarrow> colorspec \<Rightarrow> error + float list" where
  "to_rgb named c = (case to_rgba named c of Inl e \<Rightarrow> Inl e | Inr rgba \<Rightarrow> Inr (take 3 rgba))"

definition hexdigit :: "nat \<Rightarrow> char" where
  "hexdigit d = ''0123456789abcdef'' ! d"

definition format_02x :: "int \<Rightarrow> string" where
  \<comment> \<open>\<open>format(n, "02x")\<close> for \<open>0 \<le> n < 256\<close>, the only values a channel in \<open>[0, 1]\<close> gives\<close>
  "format_02x n = [hexdigit (nat n div 16), hexdigit (nat n mod 16)]"

fun join_hex :: "float list \<Rightarrow> error + string" where
  "join_hex [] = Inr []"
| "join_hex (val # vals) =
     (case py_round (fmul val (Fin 255)) of
        Inl e \<Rightarrow> Inl e
      | Inr n \<Rightarrow> (case join_hex vals of Inl e \<Rightarrow> Inl e | Inr s \<Rightarrow> Inr (format_02x n @ s)))"

definition to_hex :: "named_colors \<Rightarrow> colorspec \<Rightarrow> bool \<Rightarrow> error + string" where
  "to_hex named c keep_alpha =
     (case to_rgba named c of
        Inl e \<Rightarrow> Inl e
      | Inr rgba \<Rightarrow>
          (case join_hex (if keep_alpha then rgba else take 3 rgba) of
             Inl e \<Rightarrow> Inl e
           | Inr s \<Rightarrow> Inr (CHR ''#'' # s)))"

section \<open>The colour nodes\<close>

text \<open>
  \<open>Node\<close> carries a name, an identifier (the MD5 digest of the name, computed by
  \<open>hashlib\<close>: the parameter \<open>md5\<close> of the constructors) and the dict \<open>parents\<close> of recorded
  edges, created with the keys \<open>both\<close>, \<open>fg\<close> and \<open>bg\<close>. \<open>RawColor\<close> and \<open>BeamerColor\<close>
  extend it; \<open>color_node\<close> is a reference to a node of either class.
\<close>

record node =
  name :: string
  node_id :: string
  parents :: "string \<rightharpoonup> string list"

record raw_color = node +
  color :: string
  fontcolor :: string

record beamer_color = node +
  fg :: string
  inverted_fg :: string
  bg :: string
  inverted_bg :: string

datatype color_node = Raw raw_color | Beamer beamer_color

text \<open>
  A source of a blend is a tuple \<open>(color, ground)\<close> or \<open>(color, ground, percent)\<close> with
  an integer percentage, as in every call of the repository; the branch of \<open>_blend\<close> for
  a single argument that is a list is never taken with tuples. The referenced node is
  read when the blend is computed, before the receiving node changes, so the tuple
  holds the node's value at the call.
\<close>

type_synonym color_spec = "color_node \<times> string \<times> int option"

definition init_parents :: "string \<rightharpoonup> string list" where
  "init_parents = [''both'' \<mapsto> [], ''fg'' \<mapsto> [], ''bg'' \<mapsto> []]"

definition RawColor :: "(string \<Rightarrow> string) \<Rightarrow> string \<Rightarrow> raw_color" where
  "RawColor md5 n =
     \<lparr>name = n, node_id = md5 n, parents = init_parents,
      color = ''#FFFFFFFF'', fontcolor = ''#000000FF''\<rparr>"

definition BeamerColor :: "(string \<Rightarrow> string) \<Rightarrow> string \<Rightarrow> beamer_color" where
  "BeamerColor md5 n =
     \<lparr>name = n, node_id = md5 n, parents = init_parents,
      fg = ''#FFFFFF00'', inverted_fg = ''#000000FF'',
      bg = ''#00000000'', inverted_bg = ''#000000FF''\<rparr>"

fun get :: "color_node \<Rightarrow> string \<Rightarrow> error + string" where
  "get (Raw r) _ = Inr (color r)"
| "get (Beamer b) c =
     (if c = ''fg'' then Inr (fg b)
      else if c = ''bg'' then Inr (bg b)
      else Inl RuntimeError)"

fun ident :: "color_node \<Rightarrow> string" where
  "ident (Raw r) = node_id r"
| "ident (Beamer b) = node_id b"

fun invert_channels :: "float list \<Rightarrow> error + float list" where
  "invert_channels [] = Inr []"
| "invert_channels (channel # rest) =
     (case py_int (fmul (Fin 255) channel) of
        Inl e \<Rightarrow> Inl e
      | Inr n \<Rightarrow>
          (case invert_channels rest of
             Inl e \<Rightarrow> Inl e
           | Inr inverted \<Rightarrow> Inr (truediv ((255 - n) mod 256) 255 # inverted)))"

definition invert_color :: "named_colors \<Rightarrow> colorspec \<Rightarrow> error + string" where
  "invert_color named c =
     (case to_rgba named c of
        Inl e \<Rightarrow> Inl e
      | Inr rgba \<Rightarrow>
          (case invert_channels rgba of
             Inl e \<Rightarrow> Inl e
           | Inr inverted \<Rightarrow> to_hex named (Floats inverted) False))"

definition weighted :: "float \<Rightarrow> float \<Rightarrow> float" where
  \<comment> \<open>\<open>channel * float(color[2]) / 100.\<close>\<close>
  "weighted channel w = fdiv (fmul channel w) 100"

fun blend_loop :: "named_colors \<Rightarrow> color_spec list \<Rightarrow> float list \<Rightarrow> error + float list" where
  "blend_loop named [] result_color = Inr result_color"
| "blend_loop named ((n, ground, percent) # rest) result_color =
     (case get n ground of
        Inl e \<Rightarrow> Inl e
      | Inr c \<Rightarrow>
          (case to_rgb named (Str c) of
             Inl e \<Rightarrow> Inl e
           | Inr new_rgb \<Rightarrow>
               (case percent of
                  None \<Rightarrow> Inl IndexError
                | Some p \<Rightarrow>
                    (case py_float p of
                       Inl e \<Rightarrow> Inl e
                     | Inr w \<Rightarrow>
                         blend_loop named rest
                           (map2 (\<lambda>r channel. fadd r (weighted channel w))
                              result_color new_rgb)))))"

fun blend :: "named_colors \<Rightarrow> color_spec list \<Rightarrow> error + string" where
  "blend named [(n, ground, percent)] = get n ground"
| "blend named color_specs =
     (case blend_loop named color_specs [Fin 0, Fin 0, Fin 0] of
        Inl e \<Rightarrow> Inl e
      | Inr result_color \<Rightarrow>
          (case color_specs of
             [] \<Rightarrow> Inl IndexError
           | (n, ground, percent) # _ \<Rightarrow>
               (case get n ground of
                  Inl e \<Rightarrow> Inl e
                | Inr c \<Rightarrow>
                    (case to_rgba named (Str c) of
                       Inl e \<Rightarrow> Inl e
                     | Inr rgba \<Rightarrow> to_hex named (Floats (result_color @ [rgba ! 3])) True))))"

text \<open>
  The methods that change a node return the changed node (\<open>Inr\<close>, the source's
  \<open>return self\<close>) or the exception together with the node as the raise leaves it.
\<close>

definition set_color :: "named_colors \<Rightarrow> raw_color \<Rightarrow> colorspec \<Rightarrow> error \<times> raw_color + raw_color" where
  "set_color named self c =
     (case to_hex named c True of
        Inl e \<Rightarrow> Inl (e, self)
      | Inr h \<Rightarrow>
          (case invert_color named (Str h) of
             Inl e \<Rightarrow> Inl (e, self\<lparr>color := h\<rparr>)
           | Inr i \<Rightarrow> Inr (self\<lparr>color := h, fontcolor := i\<rparr>)))"

definition set_fg :: "named_colors \<Rightarrow> beamer_color \<Rightarrow> string \<Rightarrow> error \<times> beamer_color + beamer_color" where
  "set_fg named self c =
     (case to_hex named (Str c) True of
        Inl e \<Rightarrow> Inl (e, self)
      | Inr h \<Rightarrow>
          (case invert_color named (Str h) of
             Inl e \<Rightarrow> Inl (e, self\<lparr>fg := h\<rparr>)
           | Inr i \<Rightarrow> Inr (self\<lparr>fg := h, inverted_fg := i\<rparr>)))"

definition set_bg :: "named_colors \<Rightarrow> beamer_color \<Rightarrow> string \<Rightarrow> error \<times> beamer_color + beamer_color" where
  "set_bg named self c =
     (case to_hex named (Str c) True of
        Inl e \<Rightarrow> Inl (e, self)
      | Inr h \<Rightarrow>
          (case invert_color named (Str h) of
             Inl e \<Rightarrow> Inl (e, self\<lparr>bg := h\<rparr>)
           | Inr i \<Rightarrow> Inr (self\<lparr>bg := h, inverted_bg := i\<rparr>)))"

definition set_parent :: "named_colors \<Rightarrow> beamer_color \<Rightarrow> color_node \<Rightarrow> error \<times> beamer_color + beamer_color" where
  "set_parent named self parent =
     (case parents self ''both'' of
        None \<Rightarrow> Inl (KeyError, self)
      | Some edges \<Rightarrow>
          (let self1 = self\<lparr>parents := (parents self)(''both'' \<mapsto> edges @ [ident parent])\<rparr>
           in case parent of
                Raw r \<Rightarrow> Inl (AttributeError, self1)
              | Beamer p \<Rightarrow>
                  (case set_fg named self1 (fg p) of
                     Inl x \<Rightarrow> Inl x
                   | Inr self2 \<Rightarrow> set_bg named self2 (bg p))))"

definition edge :: "color_spec \<Rightarrow> string" where
  \<comment> \<open>\<open>'"%s":%s' % (color_spec[0].id, ground_from)\<close>\<close>
  "edge color_spec =
     (case color_spec of (n, ground, percent) \<Rightarrow>
        [CHR 0x22] @ ident n @ [CHR 0x22] @ '':'' @
        (if ground = ''fg'' \<or> ground = ''bg'' then ground @ ''out'' else ''color''))"

fun add_parents :: "beamer_color \<Rightarrow> string \<Rightarrow> color_spec list \<Rightarrow> error \<times> beamer_color + beamer_color" where
  "add_parents self ground_to [] = Inr self"
| "add_parents self ground_to (color_spec # rest) =
     (case parents self ground_to of
        None \<Rightarrow> Inl (KeyError, self)
      | Some edges \<Rightarrow>
          add_parents (self\<lparr>parents := (parents self)(ground_to \<mapsto> edges @ [edge color_spec])\<rparr>)
            ground_to rest)"

definition inherit :: "named_colors \<Rightarrow> beamer_color \<Rightarrow> string \<Rightarrow> color_spec list \<Rightarrow> error \<times> beamer_color + beamer_color" where
  "inherit named self ground_to color_specs =
     (case blend named color_specs of
        Inl e \<Rightarrow> Inl (e, self)
      | Inr color_to_apply \<Rightarrow>
          (case add_parents self ground_to color_specs of
             Inl x \<Rightarrow> Inl x
           | Inr self1 \<Rightarrow>
               if ground_to = ''fg'' then set_fg named self1 color_to_apply
               else if ground_to = ''bg'' then set_bg named self1 color_to_apply
               else Inr self1))"

section \<open>Notions used in the statements\<close>

text \<open>
  The channel a byte denotes, the lower-case hexadecimal string of a list of bytes (what
  \<open>to_hex\<close> prints), and the four bytes of a hexadecimal colour, whose alpha defaults
  to 255.
\<close>

definition channel :: "nat \<Rightarrow> float" where
  "channel k = truediv (int k) 255"

definition hex_string :: "nat list \<Rightarrow> string" where
  "hex_string bs = CHR ''#'' # concat (map (\<lambda>k. format_02x (int k)) bs)"

definition rgba_bytes :: "nat list \<Rightarrow> nat list" where
  "rgba_bytes bs = (if length bs = 3 then bs @ [255] else bs)"

definition exact_byte :: "nat \<Rightarrow> bool" where
  \<comment> \<open>the byte survives the division by 255 and the multiplication by 255 exactly\<close>
  "exact_byte k =
     (case truediv (int k) 255 of
        Fin c \<Rightarrow> 0 \<le> c \<and> c \<le> 1 \<and> fl (255 * c) = Fin (of_nat k)
      | NonFin \<Rightarrow> False)"

text \<open>
  Concrete stand-ins for the two library tables, used where a statement is evaluated on
  concrete nodes: the entries of matplotlib's colour table for three names of the
  repository's catalogue, and the MD5 digests of the node names of the examples.
\<close>

definition base_names :: named_colors where
  "base_names s =
     (if s = ''black'' then Inr (Fin 0, Fin 0, Fin 0, Fin 1)
      else if s = ''white'' then Inr (Fin 1, Fin 1, Fin 1, Fin 1)
      else if s = ''red'' then Inr (Fin 1, Fin 0, Fin 0, Fin 1)
      else Inl ValueError)"

definition md5_hex :: "string \<Rightarrow> string" where
  "md5_hex s =
     (if s = ''black'' then ''1ffd9e753c8054cc61456ac7fac1ac89''
      else if s = ''white'' then ''d508fe45cecaf653904a0e774084bb5c''
      else if s = ''x'' then ''9dd4e461268c8034f5c8564e155c67a6''
      else if s = ''parent'' then ''d0e45878043844ffc41aac437e86b602''
      else if s = ''child'' then ''1b7d5726533ab525a8760351e9b5e415''
      else [])"

text \<open>
  Two facts about weights that are checked weight by weight: a percentage is a binary64
  number, and two percentages that sum to 100 blend white into exactly white.
\<close>

definition exact_weight :: "nat \<Rightarrow> bool" where
  "exact_weight w = (fl (of_nat w) = Fin (of_nat w))"

definition white_sum :: "nat \<Rightarrow> bool" where
  "white_sum w =
     (fadd (fadd (Fin 0) (weighted (Fin 1) (Fin (of_nat w))))
        (weighted (Fin 1) (Fin (of_nat (100 - w)))) = Fin 1)"

text \<open>
  The state in which \<open>_set_fg\<close> and \<open>_set_bg\<close> leave a node: each channel is printed as
  \<open>to_hex\<close> prints it and each inverse is the one \<open>invert_color\<close> computes from it.
\<close>

definition assigned :: "named_colors \<Rightarrow> beamer_color \<Rightarrow> bool" where
  "assigned named p \<longleftrightarrow>
     to_hex named (Str (fg p)) True = Inr (fg p)
     \<and> invert_color named (Str (fg p)) = Inr (inverted_fg p)
     \<and> to_hex named (Str (bg p)) True = Inr (bg p)
     \<and> invert_color named (Str (bg p)) = Inr (inverted_bg p)"

text \<open>
  The nodes of the examples: the raw colours black and white as \<open>set_color\<close> leaves them,
  and a derived node whose foreground is black and whose background is white.
\<close>

definition raw_black :: raw_color where
  "raw_black =
     \<lparr>name = ''black'', node_id = md5_hex ''black'', parents = init_parents,
      color = ''#000000ff'', fontcolor = ''#ffffff''\<rparr>"

definition raw_white :: raw_color where
  "raw_white =
     \<lparr>name = ''white'', node_id = md5_hex ''white'', parents = init_parents,
      color = ''#ffffffff'', fontcolor = ''#000000''\<rparr>"

definition black_on_white :: beamer_color where
  "black_on_white =
     \<lparr>name = ''parent'', node_id = md5_hex ''parent'',
      parents = init_parents(''fg'' \<mapsto> [[CHR 0x22] @ md5_hex ''black'' @ [CHR 0x22] @ '':color''],
                             ''bg'' \<mapsto> [[CHR 0x22] @ md5_hex ''white'' @ [CHR 0x22] @ '':color'']),
      fg = ''#000000ff'', inverted_fg = ''#ffffff'',
      bg = ''#ffffffff'', inverted_bg = ''#000000''\<rparr>"

text \<open>
  A derived node whose foreground was inherited from black and whose background is still
  the constructor's default, as the node \<open>structure\<close> of the catalogue is when
  \<open>titlelike\<close> takes it as its parent.
\<close>

definition black_on_default :: beamer_color where
  "black_on_default =
     \<lparr>name = ''parent'', node_id = md5_hex ''parent'',
      parents = init_parents(''fg'' \<mapsto> [[CHR 0x22] @ md5_hex ''black'' @ [CHR 0x22] @ '':color'']),
      fg = ''#000000ff'', inverted_fg = ''#ffffff'',
      bg = ''#00000000'', inverted_bg = ''#000000FF''\<rparr>"

section \<open>Evaluating floats on numerals\<close>

text \<open>
  Rewrite rules that let the simplifier compute \<open>fl\<close> on a numeral or a quotient of
  numerals, and the hexadecimal conversions on literals.
\<close>

lemma bitlen_One: "bitlen 1 = 1"
  by (subst compute_bitlen) simp

lemma bitlen_Bit0: "bitlen (numeral (Num.Bit0 n)) = bitlen (numeral n) + 1"
  by (subst compute_bitlen) simp

lemma bitlen_Bit1: "bitlen (numeral (Num.Bit1 n)) = bitlen (numeral n) + 1"
  by (subst compute_bitlen) simp

lemma floor_rat_numeral: "\<lfloor>numeral a / numeral b :: rat\<rfloor> = numeral a div numeral b"
  using floor_divide_of_int_eq [of "numeral a" "numeral b", where ?'a = rat] by simp

lemma ceiling_rat_numeral: "\<lceil>numeral a / numeral b :: rat\<rceil> = - (- numeral a div numeral b)"
  using ceiling_divide_eq_div [of "numeral a" "numeral b", where ?'a = rat] by simp

lemma floor_rat_neg_numeral: "\<lfloor>- (numeral a / numeral b) :: rat\<rfloor> = - numeral a div numeral b"
  using floor_divide_of_int_eq [of "- numeral a" "numeral b", where ?'a = rat] by simp

lemma pow2_1024_ge: "(65536 :: rat) \<le> pow2 1024"
proof -
  have "(2::rat) ^ 16 \<le> 2 ^ 1024" by (rule power_increasing) simp_all
  then show ?thesis by (simp add: pow2_def)
qed

lemma finite_or_inf_small: "\<bar>r\<bar> < 65536 \<Longrightarrow> finite_or_inf r = Fin r"
  using pow2_1024_ge by (simp add: finite_or_inf_def)

lemmas fl_numeral =
  fl_def [of 0] fl_def [of 1] fl_def [of "numeral a"] fl_def [of "numeral a / numeral b"]
  fl_def [of "1 / numeral b"] fl_def [of "- numeral a"] fl_def [of "- (numeral a / numeral b)"]
  fl_def [of "- 1"] fl_def [of "- (1 / numeral b)"] for a b

lemmas fl_eval = fl_numeral nearest_def scaled_def ulp_def ilog2_def pow2_def
  round_half_even_def half_even_def finite_or_inf_small truediv_def
  bitlen_One bitlen_Bit0 bitlen_Bit1 floor_rat_numeral ceiling_rat_numeral floor_rat_neg_numeral

lemmas hex_eval = hex_channels_def hexbyte_def hexval_def format_02x_def hexdigit_def

section \<open>Bytes and channels\<close>

text \<open>
  Every byte \<open>k\<close> survives the round trip through its channel exactly: the binary64
  quotient \<open>k / 255\<close> lies in \<open>[0, 1]\<close> and its product with 255 rounds to \<open>k\<close> itself,
  so both \<open>int(255 * channel)\<close> and \<open>round(channel * 255)\<close> give \<open>k\<close> back. This is
  checked byte by byte.
\<close>

lemma exact_byte_0: "exact_byte 0"
  by (simp add: exact_byte_def fl_eval)

lemma exact_byte_1: "exact_byte 1"
  by (simp add: exact_byte_def fl_eval)

lemma exact_byte_chunk1: "list_all exact_byte [2..<32]"
  by (simp add: exact_byte_def fl_eval)

lemma exact_byte_chunk2: "list_all exact_byte [32..<64]"
  by (simp add: exact_byte_def fl_eval)

lemma exact_byte_chunk3: "list_all exact_byte [64..<96]"
  by (simp add: exact_byte_def fl_eval)

lemma exact_byte_chunk4: "list_all exact_byte [96..<128]"
  by (simp add: exact_byte_def fl_eval)

lemma exact_byte_chunk5: "list_all exact_byte [128..<160]"
  by (simp add: exact_byte_def fl_eval)

lemma exact_byte_chunk6: "list_all exact_byte [160..<192]"
  by (simp add: exact_byte_def fl_eval)

lemma exact_byte_chunk7: "list_all exact_byte [192..<224]"
  by (simp add: exact_byte_def fl_eval)

lemma exact_byte_chunk8: "list_all exact_byte [224..<256]"
  by (simp add: exact_byte_def fl_eval)

lemma exact_byte_range:
  assumes "list_all exact_byte [a..<b]" "a \<le> j" "j < b"
  shows "exact_byte j"
proof -
  from assms(2,3) have "j \<in> set [a..<b]" by (simp only: set_upt atLeastLessThan_iff)
  with assms(1) show ?thesis by (simp only: list_all_iff)
qed

lemma exact_byte_all: "k < 256 \<Longrightarrow> exact_byte k"
proof -
  assume k: "k < 256"
  note chunks = exact_byte_chunk1 exact_byte_chunk2 exact_byte_chunk3 exact_byte_chunk4
    exact_byte_chunk5 exact_byte_chunk6 exact_byte_chunk7 exact_byte_chunk8
  have "k = 0 \<or> k = 1 \<or> (2 \<le> k \<and> k < 32) \<or> (32 \<le> k \<and> k < 64) \<or> (64 \<le> k \<and> k < 96)
      \<or> (96 \<le> k \<and> k < 128) \<or> (128 \<le> k \<and> k < 160) \<or> (160 \<le> k \<and> k < 192)
      \<or> (192 \<le> k \<and> k < 224) \<or> (224 \<le> k \<and> k < 256)"
    using k by arith
  then show ?thesis
    using exact_byte_0 exact_byte_1 chunks [THEN exact_byte_range] by blast
qed

lemma channel_cases:
  assumes "k < 256"
  obtains c where "channel k = Fin c" "0 \<le> c" "c \<le> 1" "fl (255 * c) = Fin (of_nat k)"
  using exact_byte_all [OF assms]
  by (auto simp: exact_byte_def channel_def split: float.splits)

lemma round_half_even_of_nat: "round_half_even (of_nat k) = int k"
  by (simp add: round_half_even_def half_even_def)

lemma byte_of_channel: "k < 256 \<Longrightarrow> py_round (fmul (channel k) (Fin 255)) = Inr (int k)"
  by (erule channel_cases) (simp add: mult.commute round_half_even_of_nat)

lemma int_of_channel: "k < 256 \<Longrightarrow> py_int (fmul (Fin 255) (channel k)) = Inr (int k)"
  by (erule channel_cases) simp

lemma channel_in_range: "k < 256 \<Longrightarrow> \<not> out_of_range (channel k)"
  by (erule channel_cases) simp

lemma channel_255: "channel 255 = Fin 1"
  by (simp add: channel_def fl_eval)

lemma join_hex_channels:
  "\<forall>k\<in>set bs. k < 256 \<Longrightarrow> join_hex (map channel bs) = Inr (concat (map (\<lambda>k. format_02x (int k)) bs))"
  by (induction bs) (simp_all add: byte_of_channel)

lemma inverted_channel: "k < 256 \<Longrightarrow> truediv (255 - int k) 255 = channel (255 - k)"
  by (simp add: channel_def of_nat_diff)

lemma invert_channels_bytes:
  "\<forall>k\<in>set bs. k < 256 \<Longrightarrow> invert_channels (map channel bs) = Inr (map (\<lambda>k. channel (255 - k)) bs)"
  by (induction bs) (simp_all add: int_of_channel inverted_channel)

section \<open>Hexadecimal strings\<close>

text \<open>
  Printing bytes with \<open>format_02x\<close> and reading them back gives the same bytes, and
  a hexadecimal colour has three or four bytes.
\<close>

lemma hexval_hexdigit: "d < 16 \<Longrightarrow> hexval (hexdigit d) = Some d"
proof -
  assume "d < 16"
  then have "d = 0 \<or> d = 1 \<or> d = 2 \<or> d = 3 \<or> d = 4 \<or> d = 5 \<or> d = 6 \<or> d = 7 \<or> d = 8
      \<or> d = 9 \<or> d = 10 \<or> d = 11 \<or> d = 12 \<or> d = 13 \<or> d = 14 \<or> d = 15"
    by arith
  then show ?thesis by (auto simp: hexval_def hexdigit_def)
qed

lemma hexbyte_format:
  "k < 256 \<Longrightarrow> hexbyte (hexdigit (k div 16)) (hexdigit (k mod 16)) = Some k"
  by (simp add: hexbyte_def hexval_hexdigit less_mult_imp_div_less)

lemma hex_pairs_format:
  "\<forall>k\<in>set bs. k < 256 \<Longrightarrow> hex_pairs (concat (map (\<lambda>k. format_02x (int k)) bs)) = Some bs"
  by (induction bs) (simp_all add: format_02x_def hexbyte_format)

lemma hexval_less: "hexval c = Some d \<Longrightarrow> d < 16"
  by (auto simp: hexval_def Let_def split: if_splits)

lemma hexbyte_less: "hexbyte h l = Some k \<Longrightarrow> k < 256"
  by (auto simp: hexbyte_def split: option.splits dest!: hexval_less)

lemma hex_pairs_bytes:
  "hex_pairs ds = Some bs \<Longrightarrow> length ds = 2 * length bs \<and> (\<forall>k\<in>set bs. k < 256)"
  by (induction ds arbitrary: bs rule: hex_pairs.induct)
     (auto split: option.splits dest: hexbyte_less)

lemma hex_channels_bytes:
  assumes "hex_channels ds = Some bs"
  shows "(length bs = 3 \<or> length bs = 4) \<and> (\<forall>k\<in>set bs. k < 256)"
proof -
  have len: "length (concat (map (\<lambda>c. [c, c]) xs)) = 2 * length xs" for xs :: string
    by (induction xs) simp_all
  from assms show ?thesis
    by (auto simp: hex_channels_def len split: if_splits dest!: hex_pairs_bytes)
qed

lemma length_hex_string: "length (hex_string bs) = Suc (2 * length bs)"
  by (induction bs) (simp_all add: hex_string_def format_02x_def)

lemma hex_channels_hex_string:
  assumes "length bs = 3 \<or> length bs = 4" "\<forall>k\<in>set bs. k < 256"
  shows "hex_channels (tl (hex_string bs)) = Some bs"
proof -
  have "length (tl (hex_string bs)) = 2 * length bs"
    using length_hex_string [of bs] by simp
  with assms show ?thesis
    by (auto simp: hex_channels_def hex_string_def hex_pairs_format)
qed

section \<open>Freshly constructed nodes\<close>

text \<open>
  C9. Every node has fully defined channel values right after construction: a new
  \<open>RawColor\<close> holds colour \<open>#FFFFFFFF\<close> with label colour \<open>#000000FF\<close>; a new \<open>BeamerColor\<close>
  holds foreground \<open>#FFFFFF00\<close>, background \<open>#00000000\<close> and both inverses \<open>#000000FF\<close>;
  \<open>get\<close> on a valid channel of such a node succeeds and returns these defaults.
\<close>

theorem fresh_nodes_defaults:
  "color (RawColor md5 n) = ''#FFFFFFFF''
   \<and> fontcolor (RawColor md5 n) = ''#000000FF''
   \<and> fg (BeamerColor md5 n) = ''#FFFFFF00''
   \<and> bg (BeamerColor md5 n) = ''#00000000''
   \<and> inverted_fg (BeamerColor md5 n) = ''#000000FF''
   \<and> inverted_bg (BeamerColor md5 n) = ''#000000FF''
   \<and> get (Raw (RawColor md5 n)) ground = Inr ''#FFFFFFFF''
   \<and> get (Beamer (BeamerColor md5 n)) ''fg'' = Inr ''#FFFFFF00''
   \<and> get (Beamer (BeamerColor md5 n)) ''bg'' = Inr ''#00000000''"
  by (simp add: RawColor_def BeamerColor_def)

section \<open>Conversions of hexadecimal colours\<close>

text \<open>
  What \<open>to_rgba\<close>, \<open>to_hex\<close> and \<open>invert_color\<close> return on a hexadecimal colour, in
  terms of its bytes.
\<close>

lemma to_rgba_hex:
  assumes "hex_channels ds = Some bs"
  shows "to_rgba named (Str (CHR ''#'' # ds)) = Inr (map channel (rgba_bytes bs))"
proof -
  have "map (\<lambda>k. truediv (int k) 255) bs = map channel bs"
    by (simp add: channel_def)
  with assms show ?thesis
    by (simp add: rgba_bytes_def channel_255)
qed

lemma to_rgba_channels:
  assumes "length bs = 4" "\<forall>k\<in>set bs. k < 256"
  shows "to_rgba named (Floats (map channel bs)) = Inr (map channel bs)"
proof -
  from assms(2) have "\<not> list_ex out_of_range (map channel bs)"
    by (simp add: list_ex_iff channel_in_range)
  with assms(1) show ?thesis by (simp add: Let_def)
qed

lemma to_hex_channels:
  assumes "length bs = 4" "\<forall>k\<in>set bs. k < 256"
  shows "to_hex named (Floats (map channel bs)) keep_alpha
           = Inr (hex_string (if keep_alpha then bs else take 3 bs))"
proof -
  have "\<forall>k\<in>set (take 3 bs). k < 256"
    using assms(2) by (meson in_set_takeD)
  then show ?thesis
    using assms
    by (simp add: to_hex_def to_rgba_channels join_hex_channels hex_string_def take_map
        del: to_rgba.simps)
qed

lemma to_hex_hex:
  assumes "hex_channels ds = Some bs"
  shows "to_hex named (Str (CHR ''#'' # ds)) True = Inr (hex_string (rgba_bytes bs))"
proof -
  from hex_channels_bytes [OF assms] have "\<forall>k\<in>set (rgba_bytes bs). k < 256"
    by (auto simp: rgba_bytes_def)
  then show ?thesis
    by (simp add: to_hex_def to_rgba_hex [OF assms] join_hex_channels hex_string_def
        del: to_rgba.simps)
qed

lemma invert_color_hex:
  assumes "hex_channels ds = Some bs"
  shows "invert_color named (Str (CHR ''#'' # ds)) = Inr (hex_string (map (\<lambda>k. 255 - k) (take 3 bs)))"
proof -
  note b = hex_channels_bytes [OF assms]
  from b have r: "length (rgba_bytes bs) = 4" "\<forall>k\<in>set (rgba_bytes bs). k < 256"
    "take 3 (rgba_bytes bs) = take 3 bs"
    by (auto simp: rgba_bytes_def)
  let ?inv = "map (\<lambda>k. 255 - k) (rgba_bytes bs)"
  have inv: "invert_channels (map channel (rgba_bytes bs)) = Inr (map channel ?inv)"
    using r(2) by (simp add: invert_channels_bytes comp_def)
  have "length ?inv = 4" "\<forall>k\<in>set ?inv. k < 256"
    using r by auto
  then have "to_hex named (Floats (map channel ?inv)) False = Inr (hex_string (take 3 ?inv))"
    using to_hex_channels [of ?inv named False] by simp
  moreover have "take 3 ?inv = map (\<lambda>k. 255 - k) (take 3 bs)"
    using r(3) by (simp add: take_map)
  ultimately show ?thesis
    by (simp add: invert_color_def to_rgba_hex [OF assms] inv del: to_rgba.simps)
qed

lemma hex_channels_of_hex_string:
  assumes "length bs = 3 \<or> length bs = 4" "\<forall>k\<in>set bs. k < 256"
  shows "\<exists>ds. hex_string bs = CHR ''#'' # ds \<and> hex_channels ds = Some bs"
  using hex_channels_hex_string [OF assms] by (simp add: hex_string_def)

section \<open>Inversion\<close>

lemma channel_complement: "k < 256 \<Longrightarrow> channel (255 - k) = fl (1 - of_nat k / 255)"
  by (simp add: channel_def truediv_def of_nat_diff diff_divide_distrib)

text \<open>
  C1 (amended). For every hexadecimal colour value, \<open>invert_color\<close> returns the six-digit
  lower-case hexadecimal string whose red, green and blue bytes are 255 minus the bytes of
  the value: each channel is one minus the channel, on the 256 levels. The alpha channel
  is not kept: the result has no alpha digits, so it denotes an opaque colour. Inverting
  \<open>#000000FF\<close> gives \<open>#ffffff\<close> and inverting \<open>#FFFFFFFF\<close> gives \<open>#000000\<close>.
\<close>

theorem invert_color_complement:
  assumes "hex_channels ds = Some bs"
  shows "invert_color named (Str (CHR ''#'' # ds)) = Inr (hex_string (map (\<lambda>k. 255 - k) (take 3 bs)))
    \<and> to_rgba named (Str (hex_string (map (\<lambda>k. 255 - k) (take 3 bs))))
        = Inr (map (\<lambda>k. fl (1 - of_nat k / 255)) (take 3 bs) @ [Fin 1])"
proof -
  note b = hex_channels_bytes [OF assms]
  let ?inv = "map (\<lambda>k. 255 - k) (take 3 bs)"
  from b have len: "length ?inv = 3" by auto
  from b have small: "\<forall>k\<in>set (take 3 bs). k < 256" by (meson in_set_takeD)
  then have "\<forall>k\<in>set ?inv. k < 256" by auto
  with len obtain ds' where ds': "hex_string ?inv = CHR ''#'' # ds'" "hex_channels ds' = Some ?inv"
    using hex_channels_of_hex_string [of ?inv] by auto
  have "map channel ?inv = map (\<lambda>k. fl (1 - of_nat k / 255)) (take 3 bs)"
    using small by (simp add: channel_complement)
  with len have "to_rgba named (Str (hex_string ?inv))
      = Inr (map (\<lambda>k. fl (1 - of_nat k / 255)) (take 3 bs) @ [Fin 1])"
    unfolding ds'(1) to_rgba_hex [OF ds'(2)] by (simp add: rgba_bytes_def channel_255)
  with invert_color_hex [OF assms] show ?thesis by simp
qed

theorem invert_color_complement_witness:
  "hex_channels ''000000FF'' = Some [0, 0, 0, 255]
   \<and> invert_color base_names (Str ''#000000FF'') = Inr ''#ffffff''
   \<and> hex_channels ''FFFFFFFF'' = Some [255, 255, 255, 255]
   \<and> invert_color base_names (Str ''#FFFFFFFF'') = Inr ''#000000''"
proof -
  have h1: "hex_channels ''000000FF'' = Some [0, 0, 0, 255]"
    and h2: "hex_channels ''FFFFFFFF'' = Some [255, 255, 255, 255]"
    by (simp_all add: hex_eval)
  show ?thesis
    using invert_color_complement [OF h1, of base_names]
      invert_color_complement [OF h2, of base_names] h1 h2
    by (simp add: hex_string_def format_02x_def hexdigit_def)
qed

theorem invert_color_alpha_counterexample:
  "invert_color base_names (Str ''#00000000'') = Inr ''#ffffff''
   \<and> to_rgba base_names (Str ''#00000000'') = Inr [Fin 0, Fin 0, Fin 0, Fin 0]
   \<and> to_rgba base_names (Str ''#ffffff'') = Inr [Fin 1, Fin 1, Fin 1, Fin 1]
   \<and> invert_color base_names (Str ''#000000FF'') \<noteq> Inr ''#FFFFFFFF''"
  by (simp add: invert_color_def to_hex_def hex_eval fl_eval)

text \<open>
  C6 (amended). Inverting a hexadecimal colour value twice recovers its red, green and
  blue channels exactly. The alpha channel is not recovered: the result of an inversion
  has no alpha digits, so the twice-inverted value is opaque whatever the alpha of the
  value was.
\<close>

theorem invert_color_twice:
  assumes "hex_channels ds = Some bs"
  shows "\<exists>h. invert_color named (Str (CHR ''#'' # ds)) = Inr h
    \<and> invert_color named (Str h) = Inr (hex_string (take 3 bs))
    \<and> to_rgb named (Str (hex_string (take 3 bs))) = to_rgb named (Str (CHR ''#'' # ds))
    \<and> to_rgba named (Str (hex_string (take 3 bs))) = Inr (map channel (take 3 bs) @ [Fin 1])"
proof -
  note b = hex_channels_bytes [OF assms]
  let ?inv = "map (\<lambda>k. 255 - k) (take 3 bs)"
  from b have len: "length ?inv = 3" "length (take 3 bs) = 3" by auto
  from b have small: "\<forall>k\<in>set (take 3 bs). k < 256" by (meson in_set_takeD)
  then have small': "\<forall>k\<in>set ?inv. k < 256" by auto
  from len small' obtain ds' where ds': "hex_string ?inv = CHR ''#'' # ds'" "hex_channels ds' = Some ?inv"
    using hex_channels_of_hex_string [of ?inv] by auto
  have twice: "map (\<lambda>k. 255 - k) (take 3 ?inv) = take 3 bs"
  proof -
    have "map (\<lambda>k. 255 - (255 - k)) (take 3 bs) = map (\<lambda>k. k) (take 3 bs)"
      using small by (intro map_cong refl) auto
    with len show ?thesis by (simp add: comp_def)
  qed
  have second: "invert_color named (Str (hex_string ?inv)) = Inr (hex_string (take 3 bs))"
    unfolding ds'(1) invert_color_hex [OF ds'(2)] twice ..
  from len small obtain es where es: "hex_string (take 3 bs) = CHR ''#'' # es"
      "hex_channels es = Some (take 3 bs)"
    using hex_channels_of_hex_string [of "take 3 bs"] by auto
  have rgba: "to_rgba named (Str (hex_string (take 3 bs))) = Inr (map channel (take 3 bs) @ [Fin 1])"
    unfolding es(1) to_rgba_hex [OF es(2)] using len by (simp add: rgba_bytes_def channel_255)
  have "take 3 (rgba_bytes bs) = take 3 bs"
    using b by (auto simp: rgba_bytes_def)
  then have "to_rgb named (Str (hex_string (take 3 bs))) = to_rgb named (Str (CHR ''#'' # ds))"
    unfolding to_rgb_def rgba to_rgba_hex [OF assms] using len by (simp add: take_map)
  with invert_color_hex [OF assms] second rgba show ?thesis by simp
qed

theorem invert_color_twice_witness:
  "hex_channels ''12a4FF80'' = Some [18, 164, 255, 128]
   \<and> (\<exists>h. invert_color base_names (Str ''#12a4FF80'') = Inr h
        \<and> invert_color base_names (Str h) = Inr ''#12a4ff'')"
proof -
  have h: "hex_channels ''12a4FF80'' = Some [18, 164, 255, 128]"
    by (simp add: hex_eval)
  have "hex_string (take 3 [18, 164, 255, 128]) = ''#12a4ff''"
    by (simp add: hex_string_def format_02x_def hexdigit_def)
  with invert_color_twice [OF h, of base_names] h show ?thesis
    by metis
qed

theorem invert_color_twice_counterexample:
  "invert_color base_names (Str ''#00000000'') = Inr ''#ffffff''
   \<and> invert_color base_names (Str ''#ffffff'') = Inr ''#000000''
   \<and> to_rgba base_names (Str ''#000000'') = Inr [Fin 0, Fin 0, Fin 0, Fin 1]
   \<and> to_rgba base_names (Str ''#00000000'') = Inr [Fin 0, Fin 0, Fin 0, Fin 0]
   \<and> \<not> \<bar>(1::rat) - 0\<bar> \<le> 1 / 255"
  by (simp add: invert_color_def to_hex_def hex_eval fl_eval)

section \<open>Reading a node\<close>

text \<open>
  C7. \<open>RawColor.get\<close> ignores its argument and returns the stored colour whatever ground
  is asked for. \<open>BeamerColor.get\<close> returns the foreground for \<open>fg\<close>, the background for
  \<open>bg\<close> (the spec's "foreground" and "background") and raises \<open>RuntimeError\<close> (the
  spec's \<open>UnknownChannel\<close>) for every other argument.
\<close>

theorem get_dispatch:
  "get (Raw r) c = Inr (color r)
   \<and> get (Raw r) c = get (Raw r) c'
   \<and> get (Beamer b) ''fg'' = Inr (fg b)
   \<and> get (Beamer b) ''bg'' = Inr (bg b)
   \<and> (c \<noteq> ''fg'' \<and> c \<noteq> ''bg'' \<longrightarrow> get (Beamer b) c = Inl RuntimeError)"
  by simp

theorem get_dispatch_witness:
  "''color'' \<noteq> ''fg'' \<and> ''color'' \<noteq> ''bg''
   \<and> get (Beamer (BeamerColor md5_hex ''x'')) ''color'' = Inl RuntimeError
   \<and> get (Raw (RawColor md5_hex ''x'')) ''color'' = get (Raw (RawColor md5_hex ''x'')) ''fg''"
  using get_dispatch [of "RawColor md5_hex ''x''" "''color''" "''fg''" "BeamerColor md5_hex ''x''"]
  by simp

section \<open>Blending a single source\<close>

text \<open>
  C4. A blend of a single source is the value read from that source, unchanged, whether
  the tuple carries no weight, the weight 100 or any other weight: the weighted sum is
  not computed, no colour conversion is applied, and for a raw colour the result is its
  stored colour.
\<close>

theorem blend_single:
  "blend named [(n, ground, percent)] = get n ground
   \<and> blend named [(Raw r, ground, Some 100)] = Inr (color r)
   \<and> blend named [(Raw r, ground, None)] = Inr (color r)
   \<and> blend named [(n, ground, percent)] = blend named' [(n, ground, percent')]"
  by simp

section \<open>Recorded edges\<close>

text \<open>
  The loop of \<open>inherit\<close> appends one edge per source tuple to the list of one key, and
  the setters of the channels leave the edges alone.
\<close>

lemma add_parents_Some:
  "parents self ground_to = Some edges \<Longrightarrow>
   add_parents self ground_to color_specs
     = Inr (self\<lparr>parents := (parents self)(ground_to \<mapsto> edges @ map edge color_specs)\<rparr>)"
proof (induction color_specs arbitrary: self edges)
  case Nil
  then have "(parents self)(ground_to \<mapsto> edges) = parents self" by (simp add: map_upd_triv)
  then show ?case by simp
next
  case (Cons s ss)
  let ?p1 = "(parents self)(ground_to \<mapsto> edges @ [edge s])"
  let ?self1 = "self\<lparr>parents := ?p1\<rparr>"
  let ?all = "edges @ map edge (s # ss)"
  have p1: "parents ?self1 = ?p1" by simp
  then have "parents ?self1 ground_to = Some (edges @ [edge s])" by simp
  from Cons.IH [OF this]
  have "add_parents ?self1 ground_to ss
      = Inr (?self1\<lparr>parents := (parents ?self1)(ground_to \<mapsto> (edges @ [edge s]) @ map edge ss)\<rparr>)" .
  moreover have "(parents ?self1)(ground_to \<mapsto> (edges @ [edge s]) @ map edge ss)
      = (parents self)(ground_to \<mapsto> ?all)"
    unfolding p1 by simp
  moreover have "?self1\<lparr>parents := q\<rparr> = self\<lparr>parents := q\<rparr>" for q by simp
  ultimately have "add_parents ?self1 ground_to ss = Inr (self\<lparr>parents := (parents self)(ground_to \<mapsto> ?all)\<rparr>)"
    by (simp only:)
  with Cons.prems show ?case by (simp only: add_parents.simps option.case)
qed

lemma add_parents_None:
  "parents self ground_to = None \<Longrightarrow> color_specs \<noteq> [] \<Longrightarrow>
   add_parents self ground_to color_specs = Inl (KeyError, self)"
  by (cases color_specs) simp_all

lemma set_fg_parents: "set_fg named self c = Inr self' \<Longrightarrow> parents self' = parents self"
  by (auto simp: set_fg_def split: sum.splits)

lemma set_bg_parents: "set_bg named self c = Inr self' \<Longrightarrow> parents self' = parents self"
  by (auto simp: set_bg_def split: sum.splits)

lemma inherit_parents:
  assumes "inherit named self ground_to color_specs = Inr self'"
  shows "\<exists>edges. parents self ground_to = Some edges
    \<and> parents self' = (parents self)(ground_to \<mapsto> edges @ map edge color_specs)"
proof -
  from assms obtain c where c: "blend named color_specs = Inr c"
    by (auto simp: inherit_def split: sum.splits)
  then have ne: "color_specs \<noteq> []" by auto
  show ?thesis
  proof (cases "parents self ground_to")
    case None
    with assms c ne show ?thesis by (simp add: inherit_def add_parents_None)
  next
    case (Some edges)
    with assms c show ?thesis
      by (auto simp: inherit_def add_parents_Some split: if_splits
          dest: set_fg_parents set_bg_parents)
  qed
qed

lemma set_parent_parents:
  assumes "set_parent named self parent = Inr self'"
  shows "\<exists>edges. parents self ''both'' = Some edges
    \<and> parents self' = (parents self)(''both'' \<mapsto> edges @ [ident parent])"
  using assms
  by (auto simp: set_parent_def Let_def split: option.splits color_node.splits sum.splits
      dest!: set_fg_parents set_bg_parents)

text \<open>
  C8. A call of \<open>inherit\<close> with N source tuples that returns has appended exactly N
  edges, one per tuple and in their order, to the list of its destination key and has
  left the other lists alone; a call of \<open>set_parent\<close> that returns has appended exactly
  one edge, the parent's identifier, to the list of the key \<open>both\<close>.
\<close>

theorem edges_recorded:
  "(inherit named self ground_to color_specs = Inr self' \<longrightarrow>
      (\<exists>edges. parents self ground_to = Some edges
         \<and> parents self' ground_to = Some (edges @ map edge color_specs)
         \<and> length (edges @ map edge color_specs) = length edges + length color_specs
         \<and> (\<forall>k. k \<noteq> ground_to \<longrightarrow> parents self' k = parents self k)))
   \<and> (set_parent named self parent = Inr self' \<longrightarrow>
      (\<exists>edges. parents self ''both'' = Some edges
         \<and> parents self' ''both'' = Some (edges @ [ident parent])
         \<and> length (edges @ [ident parent]) = length edges + 1
         \<and> (\<forall>k. k \<noteq> ''both'' \<longrightarrow> parents self' k = parents self k)))"
proof (intro conjI impI)
  assume "inherit named self ground_to color_specs = Inr self'"
  from inherit_parents [OF this] show "\<exists>edges. parents self ground_to = Some edges
         \<and> parents self' ground_to = Some (edges @ map edge color_specs)
         \<and> length (edges @ map edge color_specs) = length edges + length color_specs
         \<and> (\<forall>k. k \<noteq> ground_to \<longrightarrow> parents self' k = parents self k)"
    by auto
next
  assume "set_parent named self parent = Inr self'"
  from set_parent_parents [OF this] show "\<exists>edges. parents self ''both'' = Some edges
         \<and> parents self' ''both'' = Some (edges @ [ident parent])
         \<and> length (edges @ [ident parent]) = length edges + 1
         \<and> (\<forall>k. k \<noteq> ''both'' \<longrightarrow> parents self' k = parents self k)"
    by auto
qed

section \<open>The example nodes\<close>

text \<open>
  The example nodes are what the operations of the source build, and black and white at
  50 percent each blend to \<open>#808080ff\<close>.
\<close>

lemmas node_eval = set_color_def set_fg_def set_bg_def set_parent_def inherit_def
  RawColor_def BeamerColor_def init_parents_def edge_def md5_hex_def
  invert_color_def to_hex_def to_rgb_def

lemma raw_black_created:
  "set_color base_names (RawColor md5_hex ''black'') (Str ''#000000'') = Inr raw_black"
  by (simp add: raw_black_def node_eval hex_eval fl_eval)

lemma raw_white_created:
  "set_color base_names (RawColor md5_hex ''white'') (Str ''#FFFFFF'') = Inr raw_white"
  by (simp add: raw_white_def node_eval hex_eval fl_eval)

lemma half_black_half_white:
  "blend base_names [(Raw raw_black, ''color'', Some 50), (Raw raw_white, ''color'', Some 50)]
     = Inr ''#808080ff''"
  by (simp add: raw_black_def raw_white_def to_rgb_def to_hex_def py_float_def weighted_def
      hex_eval fl_eval)

lemma gray_inherited:
  "inherit base_names (BeamerColor md5_hex ''x'') ''fg''
     [(Raw raw_black, ''color'', Some 50), (Raw raw_white, ''color'', Some 50)]
   = Inr ((BeamerColor md5_hex ''x'')
        \<lparr>parents := init_parents(''fg'' \<mapsto>
           [[CHR 0x22] @ md5_hex ''black'' @ [CHR 0x22] @ '':color'',
            [CHR 0x22] @ md5_hex ''white'' @ [CHR 0x22] @ '':color'']),
         fg := ''#808080ff'', inverted_fg := ''#7f7f7f''\<rparr>)"
proof -
  have "add_parents (BeamerColor md5_hex ''x'') ''fg''
      [(Raw raw_black, ''color'', Some 50), (Raw raw_white, ''color'', Some 50)]
    = Inr ((BeamerColor md5_hex ''x'')\<lparr>parents := init_parents(''fg'' \<mapsto>
           [[CHR 0x22] @ md5_hex ''black'' @ [CHR 0x22] @ '':color'',
            [CHR 0x22] @ md5_hex ''white'' @ [CHR 0x22] @ '':color''])\<rparr>)"
    by (subst add_parents_Some [where edges = "[]"])
       (simp_all add: BeamerColor_def init_parents_def edge_def raw_black_def raw_white_def)
  then show ?thesis
    unfolding inherit_def half_black_half_white
    by (simp add: set_fg_def to_hex_def invert_color_def hex_eval fl_eval)
qed

section \<open>The mid-grey scenario\<close>

text \<open>
  C3 (amended). With \<open>raw_black\<close> created from \<open>#000000\<close> and \<open>raw_white\<close> from \<open>#FFFFFF\<close>,
  inheriting the foreground of a new derived node from both at 50 percent each gives the
  foreground \<open>#808080ff\<close>: each channel is \<open>0.5\<close>, \<open>0.5 * 255\<close> is \<open>127.5\<close>, and \<open>round\<close>
  takes the tie to the even byte 128. The alpha digits are those of black, \<open>ff\<close>.
\<close>

theorem mid_gray_foreground:
  "set_color base_names (RawColor md5_hex ''black'') (Str ''#000000'') = Inr raw_black
   \<and> set_color base_names (RawColor md5_hex ''white'') (Str ''#FFFFFF'') = Inr raw_white
   \<and> (case inherit base_names (BeamerColor md5_hex ''x'') ''fg''
              [(Raw raw_black, ''color'', Some 50), (Raw raw_white, ''color'', Some 50)] of
         Inl (e, _) \<Rightarrow> Inl e
       | Inr node \<Rightarrow> get (Beamer node) ''fg'') = Inr ''#808080ff''"
  by (simp add: raw_black_created raw_white_created gray_inherited)

theorem mid_gray_counterexample:
  "(case inherit base_names (BeamerColor md5_hex ''x'') ''fg''
              [(Raw raw_black, ''color'', Some 50), (Raw raw_white, ''color'', Some 50)] of
         Inl (e, _) \<Rightarrow> Inl e
       | Inr node \<Rightarrow> get (Beamer node) ''fg'') \<noteq> Inr ''#7F7F7FFF''
   \<and> (case inherit base_names (BeamerColor md5_hex ''x'') ''fg''
              [(Raw raw_black, ''color'', Some 50), (Raw raw_white, ''color'', Some 50)] of
         Inl (e, _) \<Rightarrow> Inl e
       | Inr node \<Rightarrow> get (Beamer node) ''fg'') \<noteq> Inr ''#7f7f7fff''
   \<and> hex_channels ''808080ff'' = Some [128, 128, 128, 255]
   \<and> hex_channels ''7F7F7FFF'' = Some [127, 127, 127, 255]"
  by (simp add: gray_inherited hex_eval)

section \<open>The destination \<open>both\<close>\<close>

text \<open>
  C10 (amended). For a derived node, whose edge dict has the key \<open>both\<close>, and sources
  whose blend can be computed, a call of \<open>inherit\<close> with the destination \<open>both\<close> raises
  no error: it returns the node with one edge per source tuple appended under \<open>both\<close>
  and with the foreground, the background, their inverses and the other edge lists
  unchanged; the blended value is dropped. The proviso is needed: the blend is computed
  first, and with no source at all, or with a derived source asked for a ground other
  than \<open>fg\<close> and \<open>bg\<close>, the call raises whatever the destination is.
\<close>

theorem inherit_both:
  assumes "blend named color_specs = Inr c" "parents self ''both'' = Some edges"
  shows "\<exists>self'. inherit named self ''both'' color_specs = Inr self'
    \<and> self' = self\<lparr>parents := (parents self)(''both'' \<mapsto> edges @ map edge color_specs)\<rparr>
    \<and> parents self' ''both'' = Some (edges @ map edge color_specs)
    \<and> parents self' ''fg'' = parents self ''fg'' \<and> parents self' ''bg'' = parents self ''bg''
    \<and> fg self' = fg self \<and> inverted_fg self' = inverted_fg self
    \<and> bg self' = bg self \<and> inverted_bg self' = inverted_bg self"
  using assms by (simp add: inherit_def add_parents_Some)

theorem inherit_both_witness:
  "blend base_names [(Raw raw_black, ''color'', Some 50), (Raw raw_white, ''color'', Some 50)]
     = Inr ''#808080ff''
   \<and> parents (BeamerColor md5_hex ''x'') ''both'' = Some []
   \<and> (\<exists>self'. inherit base_names (BeamerColor md5_hex ''x'') ''both''
          [(Raw raw_black, ''color'', Some 50), (Raw raw_white, ''color'', Some 50)] = Inr self'
        \<and> fg self' = ''#FFFFFF00'' \<and> bg self' = ''#00000000''
        \<and> map_option length (parents self' ''both'') = Some 2)"
proof -
  have p: "parents (BeamerColor md5_hex ''x'') ''both'' = Some []"
    by (simp add: BeamerColor_def init_parents_def)
  from inherit_both [OF half_black_half_white p]
  obtain self' where "inherit base_names (BeamerColor md5_hex ''x'') ''both''
          [(Raw raw_black, ''color'', Some 50), (Raw raw_white, ''color'', Some 50)] = Inr self'"
    "parents self' ''both'' = Some ([] @ map edge
        [(Raw raw_black, ''color'', Some 50), (Raw raw_white, ''color'', Some 50)])"
    "fg self' = fg (BeamerColor md5_hex ''x'')" "bg self' = bg (BeamerColor md5_hex ''x'')"
    by blast
  then have "\<exists>self'. inherit base_names (BeamerColor md5_hex ''x'') ''both''
          [(Raw raw_black, ''color'', Some 50), (Raw raw_white, ''color'', Some 50)] = Inr self'
        \<and> fg self' = ''#FFFFFF00'' \<and> bg self' = ''#00000000''
        \<and> map_option length (parents self' ''both'') = Some 2"
    by (simp add: BeamerColor_def)
  with half_black_half_white p show ?thesis by simp
qed

theorem inherit_both_counterexample:
  "inherit base_names (BeamerColor md5_hex ''x'') ''both'' []
     = Inl (IndexError, BeamerColor md5_hex ''x'')
   \<and> inherit base_names (BeamerColor md5_hex ''x'') ''both'' [(Beamer black_on_white, ''color'', None)]
     = Inl (RuntimeError, BeamerColor md5_hex ''x'')"
  by (simp add: inherit_def)

lemma child_of_black_on_white:
  "set_parent base_names (BeamerColor md5_hex ''child'') (Beamer black_on_white)
     = Inr ((BeamerColor md5_hex ''child'')
          \<lparr>parents := init_parents(''both'' \<mapsto> [md5_hex ''parent'']),
           fg := ''#000000ff'', inverted_fg := ''#ffffff'',
           bg := ''#ffffffff'', inverted_bg := ''#000000''\<rparr>)"
  by (simp add: black_on_white_def node_eval hex_eval fl_eval)

theorem edges_recorded_witness:
  "inherit base_names (BeamerColor md5_hex ''x'') ''fg''
     [(Raw raw_black, ''color'', Some 50), (Raw raw_white, ''color'', Some 50)]
   = Inr ((BeamerColor md5_hex ''x'')
        \<lparr>parents := init_parents(''fg'' \<mapsto>
           [[CHR 0x22] @ md5_hex ''black'' @ [CHR 0x22] @ '':color'',
            [CHR 0x22] @ md5_hex ''white'' @ [CHR 0x22] @ '':color'']),
         fg := ''#808080ff'', inverted_fg := ''#7f7f7f''\<rparr>)
   \<and> parents (BeamerColor md5_hex ''x'') ''fg'' = Some []
   \<and> map_option length (parents ((BeamerColor md5_hex ''x'')
        \<lparr>parents := init_parents(''fg'' \<mapsto>
           [[CHR 0x22] @ md5_hex ''black'' @ [CHR 0x22] @ '':color'',
            [CHR 0x22] @ md5_hex ''white'' @ [CHR 0x22] @ '':color'']),
         fg := ''#808080ff'', inverted_fg := ''#7f7f7f''\<rparr>) ''fg'') = Some 2
   \<and> set_parent base_names (BeamerColor md5_hex ''child'') (Beamer black_on_white)
     = Inr ((BeamerColor md5_hex ''child'')
          \<lparr>parents := init_parents(''both'' \<mapsto> [md5_hex ''parent'']),
           fg := ''#000000ff'', inverted_fg := ''#ffffff'',
           bg := ''#ffffffff'', inverted_bg := ''#000000''\<rparr>)
   \<and> parents (BeamerColor md5_hex ''child'') ''both'' = Some []
   \<and> map_option length (parents ((BeamerColor md5_hex ''child'')
          \<lparr>parents := init_parents(''both'' \<mapsto> [md5_hex ''parent'']),
           fg := ''#000000ff'', inverted_fg := ''#ffffff'',
           bg := ''#ffffffff'', inverted_bg := ''#000000''\<rparr>) ''both'') = Some 1"
  using edges_recorded [of base_names "BeamerColor md5_hex ''x''" "''fg''"
      "[(Raw raw_black, ''color'', Some 50), (Raw raw_white, ''color'', Some 50)]" _
      "Raw raw_black"]
    edges_recorded [of base_names "BeamerColor md5_hex ''child''" "''fg''" "[]" _
      "Beamer black_on_white"]
    gray_inherited child_of_black_on_white
  by (simp add: BeamerColor_def init_parents_def)

section \<open>Full-identity inheritance\<close>

lemma invert_color_hex_string:
  assumes "length bs = 4" "\<forall>k\<in>set bs. k < 256"
  shows "invert_color named (Str (hex_string bs)) = Inr (hex_string (map (\<lambda>k. 255 - k) (take 3 bs)))"
proof -
  from assms obtain ds where "hex_string bs = CHR ''#'' # ds" "hex_channels ds = Some bs"
    using hex_channels_of_hex_string [of bs] by auto
  then show ?thesis by (simp only: invert_color_hex)
qed

lemma to_hex_hex_string:
  assumes "length bs = 4" "\<forall>k\<in>set bs. k < 256"
  shows "to_hex named (Str (hex_string bs)) True = Inr (hex_string bs)"
proof -
  from assms obtain ds where ds: "hex_string bs = CHR ''#'' # ds" "hex_channels ds = Some bs"
    using hex_channels_of_hex_string [of bs] by auto
  from assms(1) have "rgba_bytes bs = bs" by (simp add: rgba_bytes_def)
  with ds show ?thesis by (simp only: to_hex_hex)
qed

lemma to_rgba_hex_string:
  assumes "length bs = 4" "\<forall>k\<in>set bs. k < 256"
  shows "to_rgba named (Str (hex_string bs)) = Inr (map channel bs)"
proof -
  from assms obtain ds where ds: "hex_string bs = CHR ''#'' # ds" "hex_channels ds = Some bs"
    using hex_channels_of_hex_string [of bs] by auto
  from assms(1) have "rgba_bytes bs = bs" by (simp add: rgba_bytes_def)
  with ds show ?thesis by (simp only: to_rgba_hex)
qed

lemma rgba_bytes_bytes:
  assumes "hex_channels ds = Some bs"
  shows "length (rgba_bytes bs) = 4" "\<forall>k\<in>set (rgba_bytes bs). k < 256"
    "take 3 (rgba_bytes bs) = take 3 bs"
  using hex_channels_bytes [OF assms] by (auto simp: rgba_bytes_def)

lemma set_fg_hex:
  assumes "hex_channels ds = Some bs"
  shows "set_fg named self (CHR ''#'' # ds)
    = Inr (self\<lparr>fg := hex_string (rgba_bytes bs),
                 inverted_fg := hex_string (map (\<lambda>k. 255 - k) (take 3 bs))\<rparr>)"
  using rgba_bytes_bytes [OF assms]
  by (simp add: set_fg_def to_hex_hex [OF assms] invert_color_hex_string del: to_rgba.simps)

lemma set_bg_hex:
  assumes "hex_channels ds = Some bs"
  shows "set_bg named self (CHR ''#'' # ds)
    = Inr (self\<lparr>bg := hex_string (rgba_bytes bs),
                 inverted_bg := hex_string (map (\<lambda>k. 255 - k) (take 3 bs))\<rparr>)"
  using rgba_bytes_bytes [OF assms]
  by (simp add: set_bg_def to_hex_hex [OF assms] invert_color_hex_string del: to_rgba.simps)

text \<open>
  What \<open>set_parent\<close> does with a derived parent whose foreground and background are
  hexadecimal colours: it returns the child with its name and identifier kept, with the
  parent's foreground and background printed in the canonical lower-case eight-digit
  form (the same RGBA channels), and with the inverses computed anew from them by
  \<open>invert_color\<close>, not copied; the child is then in the state \<open>assigned\<close>. When the parent
  is itself in that state, the child's foreground, background and both inverses are
  equal to the parent's. A raw colour has no foreground: with a raw parent the edge is
  recorded and \<open>AttributeError\<close> is raised.
\<close>

lemma set_parent_copies:
  assumes "parents child ''both'' = Some edges"
    and "fg p = CHR ''#'' # df" "hex_channels df = Some bf"
    and "bg p = CHR ''#'' # db" "hex_channels db = Some bb"
  shows "\<exists>child'. set_parent named child (Beamer p) = Inr child'
    \<and> name child' = name child \<and> node_id child' = node_id child
    \<and> fg child' = hex_string (rgba_bytes bf)
    \<and> bg child' = hex_string (rgba_bytes bb)
    \<and> inverted_fg child' = hex_string (map (\<lambda>k. 255 - k) (take 3 bf))
    \<and> inverted_bg child' = hex_string (map (\<lambda>k. 255 - k) (take 3 bb))
    \<and> to_rgba named (Str (fg child')) = to_rgba named (Str (fg p))
    \<and> to_rgba named (Str (bg child')) = to_rgba named (Str (bg p))
    \<and> assigned named child'
    \<and> (assigned named p \<longrightarrow>
         fg child' = fg p \<and> bg child' = bg p
         \<and> inverted_fg child' = inverted_fg p \<and> inverted_bg child' = inverted_bg p)"
proof -
  let ?child' = "child\<lparr>parents := (parents child)(''both'' \<mapsto> edges @ [node_id p]),
      fg := hex_string (rgba_bytes bf),
      inverted_fg := hex_string (map (\<lambda>k. 255 - k) (take 3 bf)),
      bg := hex_string (rgba_bytes bb),
      inverted_bg := hex_string (map (\<lambda>k. 255 - k) (take 3 bb))\<rparr>"
  note f = rgba_bytes_bytes [OF assms(3)] and b = rgba_bytes_bytes [OF assms(5)]
  have run: "set_parent named child (Beamer p) = Inr ?child'"
    by (simp add: set_parent_def assms(1,2,4) set_fg_hex [OF assms(3)] set_bg_hex [OF assms(5)])
  have rgba: "to_rgba named (Str (fg ?child')) = to_rgba named (Str (fg p))"
    "to_rgba named (Str (bg ?child')) = to_rgba named (Str (bg p))"
    using f b
    by (simp_all add: assms(2,4) to_rgba_hex_string to_rgba_hex [OF assms(3)] to_rgba_hex [OF assms(5)]
        del: to_rgba.simps)
  have settled: "assigned named ?child'"
    using f b by (simp add: assigned_def to_hex_hex_string invert_color_hex_string)
  have same: "fg ?child' = fg p \<and> bg ?child' = bg p
      \<and> inverted_fg ?child' = inverted_fg p \<and> inverted_bg ?child' = inverted_bg p"
    if "assigned named p"
    using that
    by (simp add: assigned_def assms(2,4) to_hex_hex [OF assms(3)] to_hex_hex [OF assms(5)]
        invert_color_hex [OF assms(3)] invert_color_hex [OF assms(5)] del: to_rgba.simps)
  have "name ?child' = name child" "node_id ?child' = node_id child" by simp_all
  with run rgba settled same show ?thesis
    by (intro exI [of _ ?child']) (simp del: to_rgba.simps)
qed

lemma black_on_white_built:
  "inherit base_names (BeamerColor md5_hex ''parent'') ''fg'' [(Raw raw_black, ''color'', None)]
     = Inr ((BeamerColor md5_hex ''parent'')
          \<lparr>parents := init_parents(''fg'' \<mapsto> [[CHR 0x22] @ md5_hex ''black'' @ [CHR 0x22] @ '':color'']),
           fg := ''#000000ff'', inverted_fg := ''#ffffff''\<rparr>)"
  "inherit base_names ((BeamerColor md5_hex ''parent'')
          \<lparr>parents := init_parents(''fg'' \<mapsto> [[CHR 0x22] @ md5_hex ''black'' @ [CHR 0x22] @ '':color'']),
           fg := ''#000000ff'', inverted_fg := ''#ffffff''\<rparr>) ''bg'' [(Raw raw_white, ''color'', None)]
     = Inr black_on_white"
  by (simp_all add: black_on_white_def raw_black_def raw_white_def node_eval hex_eval fl_eval)

lemma black_on_white_assigned: "assigned base_names black_on_white"
  by (simp add: assigned_def black_on_white_def invert_color_def to_hex_def hex_eval fl_eval)

lemma set_parent_raw:
  assumes "parents child ''both'' = Some edges"
  shows "set_parent named child (Raw r)
    = Inl (AttributeError, child\<lparr>parents := (parents child)(''both'' \<mapsto> edges @ [node_id r])\<rparr>)"
  using assms by (simp add: set_parent_def)

lemma set_parent_assigned_parent:
  "parents (BeamerColor md5_hex ''child'') ''both'' = Some []
   \<and> fg black_on_white = CHR ''#'' # ''000000ff''
   \<and> hex_channels ''000000ff'' = Some [0, 0, 0, 255]
   \<and> bg black_on_white = CHR ''#'' # ''ffffffff''
   \<and> hex_channels ''ffffffff'' = Some [255, 255, 255, 255]
   \<and> assigned base_names black_on_white
   \<and> (\<exists>child'. set_parent base_names (BeamerColor md5_hex ''child'') (Beamer black_on_white) = Inr child'
        \<and> fg child' = ''#000000ff'' \<and> bg child' = ''#ffffffff''
        \<and> inverted_fg child' = ''#ffffff'' \<and> inverted_bg child' = ''#000000'')"
proof -
  have h: "parents (BeamerColor md5_hex ''child'') ''both'' = Some []"
    "fg black_on_white = CHR ''#'' # ''000000ff''"
    "hex_channels ''000000ff'' = Some [0, 0, 0, 255]"
    "bg black_on_white = CHR ''#'' # ''ffffffff''"
    "hex_channels ''ffffffff'' = Some [255, 255, 255, 255]"
    by (simp_all add: BeamerColor_def init_parents_def black_on_white_def hex_eval)
  from set_parent_copies [OF h, of base_names] black_on_white_assigned
  obtain child' where "set_parent base_names (BeamerColor md5_hex ''child'') (Beamer black_on_white) = Inr child'"
    "fg child' = fg black_on_white" "bg child' = bg black_on_white"
    "inverted_fg child' = inverted_fg black_on_white" "inverted_bg child' = inverted_bg black_on_white"
    by blast
  then have "\<exists>child'. set_parent base_names (BeamerColor md5_hex ''child'') (Beamer black_on_white) = Inr child'
        \<and> fg child' = ''#000000ff'' \<and> bg child' = ''#ffffffff''
        \<and> inverted_fg child' = ''#ffffff'' \<and> inverted_bg child' = ''#000000''"
    by (simp add: black_on_white_def)
  with h black_on_white_assigned show ?thesis by simp
qed

text \<open>
  C5. The claim, and the docstring of \<open>set_parent\<close> ("strictly equivalent to its
  parent"), promise a child whose foreground, background and both inverses equal the
  parent's. The code keeps the promise for a parent in the state \<open>assigned\<close>, and breaks
  it for a parent whose background is still the constructor's default: the parent's
  background inverse is the constructor's \<open>#000000FF\<close>, the child's is recomputed from
  the background \<open>#00000000\<close> and is \<open>#ffffff\<close>, another colour. The foreground, the
  background and the foreground's inverse do agree.
\<close>

theorem set_parent_default_background:
  "inherit base_names (BeamerColor md5_hex ''parent'') ''fg'' [(Raw raw_black, ''color'', None)]
     = Inr black_on_default
   \<and> set_parent base_names (BeamerColor md5_hex ''child'') (Beamer black_on_default)
     = Inr ((BeamerColor md5_hex ''child'')
          \<lparr>parents := init_parents(''both'' \<mapsto> [md5_hex ''parent'']),
           fg := ''#000000ff'', inverted_fg := ''#ffffff'',
           bg := ''#00000000'', inverted_bg := ''#ffffff''\<rparr>)
   \<and> fg black_on_default = ''#000000ff'' \<and> inverted_fg black_on_default = ''#ffffff''
   \<and> bg black_on_default = ''#00000000'' \<and> inverted_bg black_on_default = ''#000000FF''
   \<and> to_rgba base_names (Str ''#ffffff'') = Inr [Fin 1, Fin 1, Fin 1, Fin 1]
   \<and> to_rgba base_names (Str ''#000000FF'') = Inr [Fin 0, Fin 0, Fin 0, Fin 1]"
  by (simp add: black_on_default_def raw_black_def node_eval hex_eval fl_eval)

section \<open>The error of one rounding\<close>

text \<open>
  \<open>fl\<close> moves a number by at most half a unit in the last place: for \<open>|q| \<le> 2^m\<close>
  the result is finite and within \<open>2^m / 2^53\<close> of \<open>q\<close>, and it is not negative when \<open>q\<close>
  is not.
\<close>

lemma pow2_powi: "pow2 e = 2 powi e"
  by (simp add: pow2_def power_int_def power_one_over inverse_eq_divide)

lemma pow2_pos: "0 < pow2 e"
  by (simp add: pow2_powi)

lemma pow2_mono: "a \<le> b \<Longrightarrow> pow2 a \<le> pow2 b"
  by (simp add: pow2_powi power_int_increasing)

lemma pow2_le_imp_le: "pow2 a \<le> pow2 (int m) \<Longrightarrow> a \<le> int m"
  unfolding pow2_powi by (rule power_int_le_imp_le_exp [of 2]) simp_all

lemma pow2_of_nat: "pow2 (int m) = 2 ^ m"
  by (simp add: pow2_def)

lemma pow2_diff: "pow2 (a - b) = pow2 a / pow2 b"
  by (simp add: pow2_powi power_int_diff)

lemma ilog2_lower:
  assumes "0 < q"
  shows "pow2 (ilog2 q) \<le> q"
proof (cases "1 \<le> q")
  case True
  then have pos: "0 < \<lfloor>q\<rfloor>" by simp
  then have "1 \<le> bitlen \<lfloor>q\<rfloor>" by (simp add: bitlen_alt_def)
  then have "pow2 (bitlen \<lfloor>q\<rfloor> - 1) = 2 ^ nat (bitlen \<lfloor>q\<rfloor> - 1)"
    by (simp add: pow2_def)
  also have "\<dots> = of_int (2 ^ nat (bitlen \<lfloor>q\<rfloor> - 1))" by simp
  also have "\<dots> \<le> of_int \<lfloor>q\<rfloor>"
    using bitlen_bounds [OF pos] by (simp only: of_int_le_iff)
  also have "\<dots> \<le> q" by simp
  finally show ?thesis using True by (simp add: ilog2_def)
next
  case False
  with assms have inv: "1 < 1 / q" by simp
  let ?y = "\<lceil>1 / q\<rceil>"
  from inv have "1 < ?y" by (simp add: less_ceiling_iff)
  then have pos: "0 < ?y - 1" by simp
  then have j: "0 \<le> bitlen (?y - 1)" by (simp add: bitlen_nonneg)
  from bitlen_bounds [OF pos] have "?y - 1 < 2 ^ nat (bitlen (?y - 1))" by simp
  then have "?y \<le> 2 ^ nat (bitlen (?y - 1))" by simp
  then have "(of_int ?y :: rat) \<le> of_int (2 ^ nat (bitlen (?y - 1)))"
    by (simp only: of_int_le_iff)
  moreover have "1 / q \<le> of_int ?y" by (rule le_of_int_ceiling)
  ultimately have "1 / q \<le> of_int (2 ^ nat (bitlen (?y - 1)))" by (rule order_trans [rotated])
  then have "1 / q \<le> 2 ^ nat (bitlen (?y - 1))" by simp
  then have "1 / 2 ^ nat (bitlen (?y - 1)) \<le> q"
    using assms by (simp add: field_simps)
  moreover have "pow2 (- bitlen (?y - 1)) = 1 / 2 ^ nat (bitlen (?y - 1))"
    using j by (auto simp: pow2_def)
  ultimately show ?thesis using False by (simp add: ilog2_def)
qed

lemma ilog2_upper:
  assumes "0 < q"
  shows "q < pow2 (ilog2 q + 1)"
proof (cases "1 \<le> q")
  case True
  then have pos: "0 < \<lfloor>q\<rfloor>" by simp
  then have len: "0 \<le> bitlen \<lfloor>q\<rfloor>" by (simp add: bitlen_nonneg)
  from bitlen_bounds [OF pos] have "\<lfloor>q\<rfloor> + 1 \<le> 2 ^ nat (bitlen \<lfloor>q\<rfloor>)" by simp
  then have "(of_int (\<lfloor>q\<rfloor> + 1) :: rat) \<le> of_int (2 ^ nat (bitlen \<lfloor>q\<rfloor>))"
    by (simp only: of_int_le_iff)
  moreover have "q < of_int (\<lfloor>q\<rfloor> + 1)" by simp linarith
  ultimately have "q < of_int (2 ^ nat (bitlen \<lfloor>q\<rfloor>))" by (rule less_le_trans [rotated])
  then show ?thesis using True len by (simp add: ilog2_def pow2_def)
next
  case False
  with assms have inv: "1 < 1 / q" by simp
  let ?y = "\<lceil>1 / q\<rceil>"
  from inv have "1 < ?y" by (simp add: less_ceiling_iff)
  then have pos: "0 < ?y - 1" by simp
  then have j: "1 \<le> bitlen (?y - 1)" by (simp add: bitlen_alt_def)
  from bitlen_bounds [OF pos] have "2 ^ nat (bitlen (?y - 1) - 1) \<le> ?y - 1" by simp
  then have "(of_int (2 ^ nat (bitlen (?y - 1) - 1)) :: rat) \<le> of_int (?y - 1)"
    by (simp only: of_int_le_iff)
  moreover have "of_int (?y - 1) < 1 / q" by simp linarith
  ultimately have "of_int (2 ^ nat (bitlen (?y - 1) - 1)) < 1 / q" by (rule le_less_trans)
  then have "2 ^ nat (bitlen (?y - 1) - 1) < 1 / q" by simp
  then have "q < 1 / 2 ^ nat (bitlen (?y - 1) - 1)"
    using assms by (simp add: field_simps)
  moreover have "pow2 (- bitlen (?y - 1) + 1) = 1 / 2 ^ nat (bitlen (?y - 1) - 1)"
  proof (cases "bitlen (?y - 1) = 1")
    case True
    then show ?thesis by (simp add: pow2_def)
  next
    case False
    with j have "- bitlen (?y - 1) + 1 < 0" by simp
    then show ?thesis by (simp add: pow2_def algebra_simps)
  qed
  ultimately show ?thesis using False by (simp add: ilog2_def)
qed

lemma ilog2_le:
  assumes "0 < q" "q \<le> 2 ^ m"
  shows "ilog2 q \<le> int m"
proof -
  have "pow2 (ilog2 q) \<le> pow2 (int m)"
    using ilog2_lower [OF assms(1)] assms(2) by (simp add: pow2_of_nat)
  then show ?thesis by (rule pow2_le_imp_le)
qed

lemma ulp_pos: "0 < ulp q"
  by (simp add: ulp_def pow2_pos)

lemma ulp_le:
  assumes "q \<noteq> 0" "\<bar>q\<bar> \<le> 2 ^ m"
  shows "ulp q \<le> 2 ^ m / 2 ^ 52"
proof -
  from assms have "ilog2 \<bar>q\<bar> \<le> int m" by (intro ilog2_le) simp_all
  then have "max (ilog2 \<bar>q\<bar>) (- 1022) - 52 \<le> int m - 52" by simp
  then have "ulp q \<le> pow2 (int m - 52)"
    unfolding ulp_def by (rule pow2_mono)
  also have "\<dots> = 2 ^ m / 2 ^ 52"
    using pow2_of_nat [of 52] by (simp add: pow2_diff pow2_of_nat)
  finally show ?thesis .
qed

lemma round_half_even_error: "\<bar>of_int (round_half_even x) - x\<bar> \<le> 1 / 2"
proof -
  have "of_int \<lfloor>x\<rfloor> \<le> x" "x < of_int \<lfloor>x\<rfloor> + 1" by linarith+
  then show ?thesis
    by (auto simp: round_half_even_def half_even_def)
qed

lemma round_half_even_nonneg: "0 \<le> x \<Longrightarrow> 0 \<le> round_half_even x"
  by (auto simp: round_half_even_def half_even_def)

lemma nearest_error: "\<bar>nearest q - q\<bar> \<le> ulp q / 2"
proof (cases "q = 0")
  case True
  then show ?thesis using ulp_pos [of q] by (simp add: nearest_def)
next
  case False
  let ?u = "ulp q"
  have u: "0 < ?u" by (rule ulp_pos)
  have "nearest q - q = (of_int (round_half_even (q / ?u)) - q / ?u) * ?u"
    using False u by (simp add: nearest_def scaled_def left_diff_distrib)
  then have "\<bar>nearest q - q\<bar> = \<bar>of_int (round_half_even (q / ?u)) - q / ?u\<bar> * ?u"
    using u by (simp add: abs_mult)
  also have "\<dots> \<le> 1 / 2 * ?u"
    using round_half_even_error [of "q / ?u"] u by (intro mult_right_mono) simp_all
  finally show ?thesis by simp
qed

lemma nearest_nonneg: "0 \<le> q \<Longrightarrow> 0 \<le> nearest q"
  using ulp_pos [of q] by (simp add: nearest_def scaled_def round_half_even_nonneg)

lemma fl_approx:
  assumes "\<bar>q\<bar> \<le> 2 ^ m" "m \<le> 10"
  obtains r where "fl q = Fin r" "\<bar>r - q\<bar> \<le> 2 ^ m / 2 ^ 53" "0 \<le> q \<Longrightarrow> 0 \<le> r"
proof -
  have err: "\<bar>nearest q - q\<bar> \<le> 2 ^ m / 2 ^ 53"
  proof (cases "q = 0")
    case True
    then show ?thesis by (simp add: nearest_def)
  next
    case False
    from nearest_error [of q] ulp_le [OF False assms(1)] show ?thesis by simp
  qed
  have "(2::rat) ^ m \<le> 2 ^ 10" using assms(2) by (intro power_increasing) simp_all
  then have m: "(2::rat) ^ m \<le> 1024" by simp
  with err have "\<bar>nearest q - q\<bar> \<le> 1" by simp
  with assms(1) m have "\<bar>nearest q\<bar> < 65536" by simp
  then have "fl q = Fin (nearest q)" by (simp add: fl_def finite_or_inf_small)
  with err nearest_nonneg [of q] that show ?thesis by blast
qed

section \<open>Weights\<close>

lemma list_all_range: "list_all P [a..<b] \<Longrightarrow> a \<le> j \<Longrightarrow> j < b \<Longrightarrow> P j"
  by (simp only: list_all_iff set_upt atLeastLessThan_iff)

lemma exact_weight_0: "exact_weight 0"
  by (simp add: exact_weight_def fl_eval)

lemma exact_weight_1: "exact_weight 1"
  by (simp add: exact_weight_def fl_eval)

lemma exact_weight_upto: "list_all exact_weight [2..<101]"
  by (simp add: exact_weight_def fl_eval)

lemma exact_weight_all: "w \<le> 100 \<Longrightarrow> exact_weight w"
proof -
  assume "w \<le> 100"
  then have "w = 0 \<or> w = 1 \<or> (2 \<le> w \<and> w < 101)" by arith
  then show ?thesis
    using exact_weight_0 exact_weight_1 exact_weight_upto [THEN list_all_range] by blast
qed

lemma white_sum_0: "white_sum 0"
  by (simp add: white_sum_def weighted_def fl_eval)

lemma white_sum_1: "white_sum 1"
  by (simp add: white_sum_def weighted_def fl_eval)

lemma white_sum_part1: "list_all white_sum [2..<26]"
  by (simp add: white_sum_def weighted_def fl_eval)

lemma white_sum_part2: "list_all white_sum [26..<51]"
  by (simp add: white_sum_def weighted_def fl_eval)

lemma white_sum_part3: "list_all white_sum [51..<76]"
  by (simp add: white_sum_def weighted_def fl_eval)

lemma white_sum_part4: "list_all white_sum [76..<101]"
  by (simp add: white_sum_def weighted_def fl_eval)

lemma white_sum_all: "w \<le> 100 \<Longrightarrow> white_sum w"
proof -
  assume "w \<le> 100"
  then have "w = 0 \<or> w = 1 \<or> (2 \<le> w \<and> w < 26) \<or> (26 \<le> w \<and> w < 51)
      \<or> (51 \<le> w \<and> w < 76) \<or> (76 \<le> w \<and> w < 101)"
    by arith
  then show ?thesis
    using white_sum_0 white_sum_1 white_sum_part1 [THEN list_all_range]
      white_sum_part2 [THEN list_all_range] white_sum_part3 [THEN list_all_range]
      white_sum_part4 [THEN list_all_range]
    by blast
qed

section \<open>One channel of a blend of two sources\<close>

text \<open>
  The accumulated channel of two sources with percentages that sum to at most 100 is a
  float within \<open>[0, 1]\<close>, close enough to the weighted sum of the two bytes for \<open>to_hex\<close>
  to print that sum rounded to a nearest byte. When the weighted sum is the full 255 the
  accumulated channel is exactly 1, by the check of \<open>white_sum\<close>; otherwise it stays below
  1 by more than the rounding errors.
\<close>

lemma fl_approx_nonneg:
  assumes "0 \<le> q" "q \<le> 2 ^ m" "m \<le> 10"
  obtains r where "fl q = Fin r" "\<bar>r - q\<bar> \<le> 2 ^ m / 2 ^ 53" "0 \<le> r"
proof -
  from assms(1,2) have a: "\<bar>q\<bar> \<le> 2 ^ m" by simp
  show ?thesis
  proof (rule fl_approx [OF a assms(3)])
    fix r
    assume r: "fl q = Fin r" "\<bar>r - q\<bar> \<le> 2 ^ m / 2 ^ 53" and nonneg: "0 \<le> q \<Longrightarrow> 0 \<le> r"
    from r nonneg [OF assms(1)] show thesis by (rule that)
  qed
qed

lemma fl_0: "fl 0 = Fin 0"
  by (simp add: fl_eval)

lemma weighted_zero: "k < 256 \<Longrightarrow> weighted (channel k) (Fin 0) = Fin 0"
  by (erule channel_cases) (simp add: weighted_def fl_0)

lemma weighted_white_zero: "weighted (Fin 1) (Fin 0) = Fin 0"
  by (simp add: weighted_def fl_0)

lemma channel_approx:
  assumes "k < 256"
  obtains c where "channel k = Fin c" "0 \<le> c" "c \<le> 1" "\<bar>c - of_nat k / 255\<bar> \<le> 1 / 2 ^ 53"
proof -
  from assms have "(0::rat) \<le> of_nat k / 255" "of_nat k / 255 \<le> (2::rat) ^ 0" by simp_all
  then obtain r where r: "fl (of_nat k / 255) = Fin r" "\<bar>r - of_nat k / 255\<bar> \<le> 2 ^ 0 / 2 ^ 53"
    by (rule fl_approx_nonneg) simp_all
  from assms obtain c where c: "channel k = Fin c" "0 \<le> c" "c \<le> 1"
    by (rule channel_cases)
  from r(1) c(1) have "c = r" by (simp add: channel_def truediv_def)
  with r(2) c that show ?thesis by simp
qed

lemma weighted_approx:
  assumes "k < 256" "w \<le> 100"
  obtains d where "weighted (channel k) (Fin (of_nat w)) = Fin d" "0 \<le> d"
    "\<bar>d - of_nat (w * k) / 25500\<bar> \<le> 5 / 2 ^ 53"
proof -
  define u :: rat where "u = 1 / 2 ^ 53"
  have u: "0 < u" "u \<le> 1 / 1000000" by (simp_all add: u_def)
  from assms(1) obtain c where c: "channel k = Fin c" "0 \<le> c" "c \<le> 1"
      "\<bar>c - of_nat k / 255\<bar> \<le> u"
    unfolding u_def by (rule channel_approx)
  let ?w = "of_nat w :: rat"
  have w: "0 \<le> ?w" "?w \<le> 100" using assms(2) by simp_all
  have cw: "0 \<le> c * ?w" "c * ?w \<le> 100"
    using c(2,3) w mult_mono [of c 1 ?w 100] by simp_all
  then have "0 \<le> c * ?w" "c * ?w \<le> 2 ^ 7" by simp_all
  then obtain p where "fl (c * ?w) = Fin p" "\<bar>p - c * ?w\<bar> \<le> 2 ^ 7 / 2 ^ 53" "0 \<le> p"
    by (rule fl_approx_nonneg) simp_all
  then have p: "fl (c * ?w) = Fin p" "\<bar>p - c * ?w\<bar> \<le> 128 * u" "0 \<le> p"
    by (simp_all add: u_def)
  from p(2) cw u have "p \<le> 200" by linarith
  with p(3) have "0 \<le> p / 100" "p / 100 \<le> 2 ^ 1" by simp_all
  then obtain d where "fl (p / 100) = Fin d" "\<bar>d - p / 100\<bar> \<le> 2 ^ 1 / 2 ^ 53" "0 \<le> d"
    by (rule fl_approx_nonneg) simp_all
  then have d: "fl (p / 100) = Fin d" "\<bar>d - p / 100\<bar> \<le> 2 * u" "0 \<le> d"
    by (simp_all add: u_def)
  have "c * ?w - of_nat (w * k) / 255 = (c - of_nat k / 255) * ?w" by (simp add: algebra_simps)
  then have "\<bar>c * ?w - of_nat (w * k) / 255\<bar> = \<bar>c - of_nat k / 255\<bar> * ?w"
    using w(1) by (simp add: abs_mult)
  also have "\<dots> \<le> u * 100"
    using c(4) w u by (intro mult_mono) simp_all
  finally have e: "\<bar>c * ?w - of_nat (w * k) / 255\<bar> \<le> 100 * u" by simp
  have "weighted (channel k) (Fin ?w) = Fin d"
    by (simp add: weighted_def c(1) p(1) d(1))
  moreover have "of_nat (w * k) / 25500 = of_nat (w * k) / 255 / (100 :: rat)" by simp
  then have "\<bar>d - of_nat (w * k) / 25500\<bar> \<le> 5 * u"
    using e p(2) d(2) by linarith
  then have "\<bar>d - of_nat (w * k) / 25500\<bar> \<le> 5 / 2 ^ 53" by (simp add: u_def)
  ultimately show ?thesis using d(3) that by blast
qed

lemma white_full: "py_round (fmul (Fin 1) (Fin 255)) = Inr 255"
  by (simp add: fl_eval)

lemma mix_channel:
  assumes "k1 < 256" "k2 < 256" "w1 + w2 \<le> 100"
  obtains v R where
    "fadd (fadd (Fin 0) (weighted (channel k1) (Fin (of_nat w1))))
       (weighted (channel k2) (Fin (of_nat w2))) = Fin v"
    "\<not> out_of_range (Fin v)"
    "py_round (fmul (Fin v) (Fin 255)) = Inr R" "0 \<le> R" "R < 256"
    "\<bar>100 * R - int (w1 * k1 + w2 * k2)\<bar> \<le> 50"
proof -
  let ?N = "w1 * k1 + w2 * k2"
  have le: "w1 * k1 \<le> w1 * 255" "w2 * k2 \<le> w2 * 255"
    using assms(1,2) by simp_all
  with assms(3) have N: "?N \<le> 25500" by linarith
  show ?thesis
  proof (cases "?N = 25500")
    case True
    with le assms(3) have eq: "w1 * k1 = w1 * 255" "w2 * k2 = w2 * 255"
      and w2: "w2 = 100 - w1" and w1: "w1 \<le> 100"
      by linarith+
    from eq have full: "w1 = 0 \<or> k1 = 255" "w2 = 0 \<or> k2 = 255"
      by auto
    have "weighted (channel k1) (Fin (of_nat w1)) = weighted (Fin 1) (Fin (of_nat w1))"
      using full(1) assms(1) by (auto simp: channel_255 weighted_zero weighted_white_zero)
    moreover have "weighted (channel k2) (Fin (of_nat w2)) = weighted (Fin 1) (Fin (of_nat w2))"
      using full(2) assms(2) by (auto simp: channel_255 weighted_zero weighted_white_zero)
    ultimately have "fadd (fadd (Fin 0) (weighted (channel k1) (Fin (of_nat w1))))
       (weighted (channel k2) (Fin (of_nat w2))) = Fin 1"
      using white_sum_all [OF w1] by (simp add: white_sum_def w2)
    moreover have "\<not> out_of_range (Fin 1)" by simp
    moreover have "\<bar>100 * 255 - int ?N\<bar> \<le> 50" using True by simp
    ultimately show ?thesis using white_full by (intro that [of 1 255]) simp_all
  next
    case False
    with N have N': "?N \<le> 25499" by simp
    define u :: rat where "u = 1 / 2 ^ 53"
    have u: "0 < u" "u \<le> 1 / 1000000" by (simp_all add: u_def)
    from assms(3) have w: "w1 \<le> 100" "w2 \<le> 100" by simp_all
    define e1 :: rat where "e1 = of_nat (w1 * k1) / 25500"
    define e2 :: rat where "e2 = of_nat (w2 * k2) / 25500"
    define n :: rat where "n = of_nat ?N"
    have "(of_nat ?N :: rat) \<le> of_nat 25499" using N' by (simp only: of_nat_le_iff)
    then have n: "n \<le> 25499" by (simp add: n_def)
    have e: "0 \<le> e1" "0 \<le> e2" "e1 + e2 = n / 25500"
      by (simp_all add: add_divide_distrib e1_def e2_def n_def)
    from assms(1) w(1) obtain d1 where "weighted (channel k1) (Fin (of_nat w1)) = Fin d1" "0 \<le> d1"
        "\<bar>d1 - of_nat (w1 * k1) / 25500\<bar> \<le> 5 / 2 ^ 53"
      by (rule weighted_approx)
    then have d1: "weighted (channel k1) (Fin (of_nat w1)) = Fin d1" "0 \<le> d1" "\<bar>d1 - e1\<bar> \<le> 5 * u"
      by (simp_all add: u_def e1_def)
    from assms(2) w(2) obtain d2 where "weighted (channel k2) (Fin (of_nat w2)) = Fin d2" "0 \<le> d2"
        "\<bar>d2 - of_nat (w2 * k2) / 25500\<bar> \<le> 5 / 2 ^ 53"
      by (rule weighted_approx)
    then have d2: "weighted (channel k2) (Fin (of_nat w2)) = Fin d2" "0 \<le> d2" "\<bar>d2 - e2\<bar> \<le> 5 * u"
      by (simp_all add: u_def e2_def)
    from d1(3) e n u have "d1 \<le> 2" by linarith
    with d1(2) have "0 \<le> d1" "d1 \<le> 2 ^ 1" by simp_all
    then obtain a where "fl d1 = Fin a" "\<bar>a - d1\<bar> \<le> 2 ^ 1 / 2 ^ 53" "0 \<le> a"
      by (rule fl_approx_nonneg) simp_all
    then have a: "fl d1 = Fin a" "\<bar>a - d1\<bar> \<le> 2 * u" "0 \<le> a"
      by (simp_all add: u_def)
    from a(2) d1(3) d2(3) e n u have "a + d2 \<le> 8" by linarith
    with a(3) d2(2) have "0 \<le> a + d2" "a + d2 \<le> 2 ^ 3" by simp_all
    then obtain v where "fl (a + d2) = Fin v" "\<bar>v - (a + d2)\<bar> \<le> 2 ^ 3 / 2 ^ 53" "0 \<le> v"
      by (rule fl_approx_nonneg) simp_all
    then have v: "fl (a + d2) = Fin v" "\<bar>v - (a + d2)\<bar> \<le> 8 * u" "0 \<le> v"
      by (simp_all add: u_def)
    have close: "\<bar>v - n / 25500\<bar> \<le> 20 * u"
      using v(2) a(2) d1(3) d2(3) e(3) by linarith
    with n u have v1: "v < 1" by linarith
    have sum: "fadd (fadd (Fin 0) (weighted (channel k1) (Fin (of_nat w1))))
       (weighted (channel k2) (Fin (of_nat w2))) = Fin v"
      by (simp add: d1(1) d2(1) a(1) v(1))
    from v(3) v1 have "0 \<le> v * 255" "v * 255 \<le> 2 ^ 8" by simp_all
    then obtain y where "fl (v * 255) = Fin y" "\<bar>y - v * 255\<bar> \<le> 2 ^ 8 / 2 ^ 53" "0 \<le> y"
      by (rule fl_approx_nonneg) simp_all
    then have y: "fl (v * 255) = Fin y" "\<bar>y - v * 255\<bar> \<le> 256 * u" "0 \<le> y"
      by (simp_all add: u_def)
    let ?R = "round_half_even y"
    note R = round_half_even_error [of y] round_half_even_nonneg [OF y(3)]
    have "\<bar>of_int ?R * 100 - n\<bar> < 51"
      using R(1) y(2) close u by linarith
    then have "\<bar>of_int (?R * 100 - int ?N) :: rat\<bar> < of_int 51" by (simp add: n_def)
    then have "\<bar>?R * 100 - int ?N\<bar> < 51"
      by (simp only: of_int_abs [symmetric] of_int_less_iff)
    then have bound: "\<bar>100 * ?R - int ?N\<bar> \<le> 50" by simp
    with N' have "?R < 256" by linarith
    moreover have "py_round (fmul (Fin v) (Fin 255)) = Inr ?R" by (simp add: y(1))
    moreover have "\<not> out_of_range (Fin v)" using v(3) v1 by simp
    ultimately show ?thesis using sum R(2) bound by (intro that [of v ?R])
  qed
qed

section \<open>Blending two sources\<close>

lemma py_float_percent:
  assumes "0 \<le> w" "w \<le> 100"
  shows "py_float w = Inr (Fin (of_int w))"
proof -
  from assms have "nat w \<le> 100" by simp
  from exact_weight_all [OF this] assms(1) have "fl (of_int w) = Fin (of_int w)"
    by (simp add: exact_weight_def)
  then show ?thesis by (simp add: py_float_def)
qed

lemma three_bytes:
  assumes "hex_channels ds = Some bs"
  obtains r g b where "take 3 bs = [r, g, b]" "bs ! 0 = r" "bs ! 1 = g" "bs ! 2 = b"
    "r < 256" "g < 256" "b < 256"
proof -
  note h = hex_channels_bytes [OF assms]
  then have "3 \<le> length bs" by auto
  then obtain r g b rest where bs: "bs = r # g # b # rest"
    by (cases bs; cases "tl bs"; cases "tl (tl bs)") auto
  with h that [of r g b] show ?thesis by simp
qed

lemma to_rgb_hex:
  assumes "hex_channels ds = Some bs"
  shows "to_rgb named (Str (CHR ''#'' # ds)) = Inr (map channel (take 3 bs))"
  using rgba_bytes_bytes(3) [OF assms]
  by (simp add: to_rgb_def to_rgba_hex [OF assms] take_map del: to_rgba.simps)

lemma alpha_byte:
  assumes "hex_channels ds = Some bs"
  shows "map channel (rgba_bytes bs) ! 3 = channel (rgba_bytes bs ! 3)" "rgba_bytes bs ! 3 < 256"
  using rgba_bytes_bytes(1,2) [OF assms] by simp_all

lemma to_hex_blended:
  assumes "\<not> out_of_range (Fin vr)" "py_round (fmul (Fin vr) (Fin 255)) = Inr r" "0 \<le> r"
    and "\<not> out_of_range (Fin vg)" "py_round (fmul (Fin vg) (Fin 255)) = Inr g" "0 \<le> g"
    and "\<not> out_of_range (Fin vb)" "py_round (fmul (Fin vb) (Fin 255)) = Inr b" "0 \<le> b"
    and "a < 256"
  shows "to_hex named (Floats [Fin vr, Fin vg, Fin vb, channel a]) True
    = Inr (hex_string [nat r, nat g, nat b, a])"
proof -
  from assms(10) have "\<not> out_of_range (channel a)" by (rule channel_in_range)
  with assms(1,4,7) have "to_rgba named (Floats [Fin vr, Fin vg, Fin vb, channel a])
      = Inr [Fin vr, Fin vg, Fin vb, channel a]"
    by simp
  then show ?thesis
    using assms(2,3,5,6,8,9) byte_of_channel [OF assms(10)]
    by (simp add: to_hex_def hex_string_def del: to_rgba.simps fmul.simps py_round.simps)
qed

lemma mix_percent:
  assumes "k1 < 256" "k2 < 256" "0 \<le> w1" "0 \<le> w2" "w1 + w2 \<le> 100"
  obtains v R where
    "fadd (fadd (Fin 0) (weighted (channel k1) (Fin (of_int w1))))
       (weighted (channel k2) (Fin (of_int w2))) = Fin v"
    "\<not> out_of_range (Fin v)"
    "py_round (fmul (Fin v) (Fin 255)) = Inr R" "0 \<le> R" "R < 256"
    "\<bar>100 * R - (w1 * int k1 + w2 * int k2)\<bar> \<le> 50"
proof -
  from assms(3-5) have "nat w1 + nat w2 \<le> 100" by simp
  with assms(1,2) obtain v R where
    "fadd (fadd (Fin 0) (weighted (channel k1) (Fin (of_nat (nat w1)))))
       (weighted (channel k2) (Fin (of_nat (nat w2)))) = Fin v"
    "\<not> out_of_range (Fin v)"
    "py_round (fmul (Fin v) (Fin 255)) = Inr R" "0 \<le> R" "R < 256"
    "\<bar>100 * R - int (nat w1 * k1 + nat w2 * k2)\<bar> \<le> 50"
    by (rule mix_channel)
  with assms(3,4) show ?thesis
    by (intro that [of v R]) (simp_all del: out_of_range.simps fmul.simps py_round.simps)
qed

text \<open>
  C2 (amended). For two sources whose values are hexadecimal colours and two integer
  percentages \<open>w1\<close>, \<open>w2\<close> that are not negative and sum to at most 100 (in particular \<open>w\<close>
  and \<open>100 - w\<close> for \<open>0 \<le> w \<le> 100\<close>), \<open>blend\<close> returns an eight-digit hexadecimal value
  whose red, green and blue bytes \<open>r\<close>, \<open>g\<close>, \<open>b\<close> are the weighted sums
  \<open>(w1 * c1 + w2 * c2) / 100\<close> of the bytes of the sources rounded to a nearest byte
  (\<open>|100 * r - (w1 * c1 + w2 * c2)| \<le> 50\<close>), so each channel is within half a level,
  \<open>1/510\<close>, of the linear combination of the sources' channels, and whose alpha byte is
  the alpha byte of the first source. The sum is not normalised: the weights enter as
  they are. (With three sources the accumulated float can exceed 1 although the
  percentages sum to 100, and \<open>to_hex\<close> then raises: white at 33, 56 and 11 percent.)
\<close>

theorem blend_two_sources:
  assumes "get n1 ground1 = Inr (CHR ''#'' # ds1)" "hex_channels ds1 = Some bs1"
    and "get n2 ground2 = Inr (CHR ''#'' # ds2)" "hex_channels ds2 = Some bs2"
    and "0 \<le> w1" "0 \<le> w2" "w1 + w2 \<le> 100"
  shows "\<exists>r g b. blend named [(n1, ground1, Some w1), (n2, ground2, Some w2)]
        = Inr (hex_string [r, g, b, rgba_bytes bs1 ! 3])
    \<and> r < 256 \<and> g < 256 \<and> b < 256
    \<and> \<bar>100 * int r - (w1 * int (bs1 ! 0) + w2 * int (bs2 ! 0))\<bar> \<le> 50
    \<and> \<bar>100 * int g - (w1 * int (bs1 ! 1) + w2 * int (bs2 ! 1))\<bar> \<le> 50
    \<and> \<bar>100 * int b - (w1 * int (bs1 ! 2) + w2 * int (bs2 ! 2))\<bar> \<le> 50"
proof -
  from assms(2) obtain r1 g1 b1 where s1: "take 3 bs1 = [r1, g1, b1]"
      "bs1 ! 0 = r1" "bs1 ! 1 = g1" "bs1 ! 2 = b1" "r1 < 256" "g1 < 256" "b1 < 256"
    by (rule three_bytes)
  from assms(4) obtain r2 g2 b2 where s2: "take 3 bs2 = [r2, g2, b2]"
      "bs2 ! 0 = r2" "bs2 ! 1 = g2" "bs2 ! 2 = b2" "r2 < 256" "g2 < 256" "b2 < 256"
    by (rule three_bytes)
  from assms(5-7) have w: "w1 \<le> 100" "w2 \<le> 100" by simp_all
  note pf = py_float_percent [OF assms(5) w(1)] py_float_percent [OF assms(6) w(2)]
  let ?mix = "\<lambda>k1 k2. fadd (fadd (Fin 0) (weighted (channel k1) (Fin (of_int w1))))
       (weighted (channel k2) (Fin (of_int w2)))"
  have loop: "blend_loop named [(n1, ground1, Some w1), (n2, ground2, Some w2)] [Fin 0, Fin 0, Fin 0]
      = Inr [?mix r1 r2, ?mix g1 g2, ?mix b1 b2]"
    by (simp add: assms(1,3) to_rgb_hex [OF assms(2)] to_rgb_hex [OF assms(4)] s1(1) s2(1) pf
        del: to_rgba.simps fadd.simps)
  from s1(5) s2(5) assms(5-7) obtain vr R where r:
    "?mix r1 r2 = Fin vr" "\<not> out_of_range (Fin vr)"
    "py_round (fmul (Fin vr) (Fin 255)) = Inr R" "0 \<le> R" "R < 256"
    "\<bar>100 * R - (w1 * int r1 + w2 * int r2)\<bar> \<le> 50"
    by (rule mix_percent)
  from s1(6) s2(6) assms(5-7) obtain vg G where g:
    "?mix g1 g2 = Fin vg" "\<not> out_of_range (Fin vg)"
    "py_round (fmul (Fin vg) (Fin 255)) = Inr G" "0 \<le> G" "G < 256"
    "\<bar>100 * G - (w1 * int g1 + w2 * int g2)\<bar> \<le> 50"
    by (rule mix_percent)
  from s1(7) s2(7) assms(5-7) obtain vb B where b:
    "?mix b1 b2 = Fin vb" "\<not> out_of_range (Fin vb)"
    "py_round (fmul (Fin vb) (Fin 255)) = Inr B" "0 \<le> B" "B < 256"
    "\<bar>100 * B - (w1 * int b1 + w2 * int b2)\<bar> \<le> 50"
    by (rule mix_percent)
  note alpha = alpha_byte [OF assms(2)]
  have "to_hex named (Floats [Fin vr, Fin vg, Fin vb, channel (rgba_bytes bs1 ! 3)]) True
      = Inr (hex_string [nat R, nat G, nat B, rgba_bytes bs1 ! 3])"
    using r(2-4) g(2-4) b(2-4) alpha(2) by (rule to_hex_blended)
  then have "blend named [(n1, ground1, Some w1), (n2, ground2, Some w2)]
      = Inr (hex_string [nat R, nat G, nat B, rgba_bytes bs1 ! 3])"
    by (simp add: loop r(1) g(1) b(1) assms(1) to_rgba_hex [OF assms(2)] alpha(1)
        del: to_rgba.simps blend_loop.simps fadd.simps)
  moreover have "nat R < 256" "nat G < 256" "nat B < 256"
    using r(4,5) g(4,5) b(4,5) by simp_all
  moreover have "\<bar>100 * int (nat R) - (w1 * int (bs1 ! 0) + w2 * int (bs2 ! 0))\<bar> \<le> 50"
    "\<bar>100 * int (nat G) - (w1 * int (bs1 ! 1) + w2 * int (bs2 ! 1))\<bar> \<le> 50"
    "\<bar>100 * int (nat B) - (w1 * int (bs1 ! 2) + w2 * int (bs2 ! 2))\<bar> \<le> 50"
    unfolding s1(2-4) s2(2-4) using r(4,6) g(4,6) b(4,6) by simp_all
  ultimately show ?thesis by blast
qed

theorem blend_two_sources_witness:
  "get (Raw raw_black) ''color'' = Inr (CHR ''#'' # ''000000ff'')
   \<and> hex_channels ''000000ff'' = Some [0, 0, 0, 255]
   \<and> get (Raw raw_white) ''color'' = Inr (CHR ''#'' # ''ffffffff'')
   \<and> hex_channels ''ffffffff'' = Some [255, 255, 255, 255]
   \<and> (0::int) \<le> 50 \<and> (50::int) + 50 \<le> 100
   \<and> (\<exists>r g b. blend base_names [(Raw raw_black, ''color'', Some 50), (Raw raw_white, ''color'', Some 50)]
          = Inr (hex_string [r, g, b, 255])
        \<and> \<bar>100 * int r - 12750\<bar> \<le> 50 \<and> \<bar>100 * int g - 12750\<bar> \<le> 50
        \<and> \<bar>100 * int b - 12750\<bar> \<le> 50)"
proof -
  have h: "get (Raw raw_black) ''color'' = Inr (CHR ''#'' # ''000000ff'')"
    "hex_channels ''000000ff'' = Some [0, 0, 0, 255]"
    "get (Raw raw_white) ''color'' = Inr (CHR ''#'' # ''ffffffff'')"
    "hex_channels ''ffffffff'' = Some [255, 255, 255, 255]"
    by (simp_all add: raw_black_def raw_white_def hex_eval)
  have w: "(0::int) \<le> 50" "(50::int) + 50 \<le> 100" by simp_all
  from blend_two_sources [OF h w(1) w(1) w(2), of base_names]
  have "\<exists>r g b. blend base_names [(Raw raw_black, ''color'', Some 50), (Raw raw_white, ''color'', Some 50)]
          = Inr (hex_string [r, g, b, 255])
        \<and> \<bar>100 * int r - 12750\<bar> \<le> 50 \<and> \<bar>100 * int g - 12750\<bar> \<le> 50
        \<and> \<bar>100 * int b - 12750\<bar> \<le> 50"
    by (simp add: rgba_bytes_def del: blend.simps) blast
  with h w show ?thesis by (simp del: blend.simps)
qed

theorem blend_exact_counterexample:
  "blend base_names [(Raw raw_black, ''color'', Some 50), (Raw raw_white, ''color'', Some 50)]
     = Inr ''#808080ff''
   \<and> to_rgba base_names (Str ''#808080ff'') \<noteq> Inr [Fin (1 / 2), Fin (1 / 2), Fin (1 / 2), Fin 1]
   \<and> hex_channels ''808080ff'' = Some [128, 128, 128, 255]
   \<and> (128 :: rat) / 255 \<noteq> 50 / 100 * (0 / 255) + 50 / 100 * (255 / 255)
   \<and> blend base_names [(Raw raw_white, ''color'', Some 150), (Raw raw_black, ''color'', Some (- 50))]
     = Inl ValueError
   \<and> blend base_names [(Raw raw_white, ''color'', Some 33), (Raw raw_white, ''color'', Some 56),
        (Raw raw_white, ''color'', Some 11)] = Inl ValueError"
proof -
  have "to_rgba base_names (Str ''#808080ff'') \<noteq> Inr [Fin (1 / 2), Fin (1 / 2), Fin (1 / 2), Fin 1]"
    by (simp add: hex_eval fl_eval)
  moreover have "hex_channels ''808080ff'' = Some [128, 128, 128, 255]"
    by (simp add: hex_eval)
  moreover have "blend base_names
      [(Raw raw_white, ''color'', Some 150), (Raw raw_black, ''color'', Some (- 50))] = Inl ValueError"
    by (simp add: raw_black_def raw_white_def to_rgb_def to_hex_def py_float_def weighted_def
        hex_eval fl_eval)
  moreover have "blend base_names [(Raw raw_white, ''color'', Some 33),
      (Raw raw_white, ''color'', Some 56), (Raw raw_white, ''color'', Some 11)] = Inl ValueError"
    by (simp add: raw_white_def to_rgb_def to_hex_def py_float_def weighted_def hex_eval fl_eval)
  ultimately show ?thesis using half_black_half_white by simp
qed

end
